theory Spec2Isabelle
  imports Complex_Main "HOL-Library.AList"
begin

section \<open>JavaScript values\<close>

text \<open>
  The settings module works on untyped JSON trees.  A value is one of the JavaScript
  primitives, an array (its elements, and the named properties that a merge or an
  assignment may have attached to it), a plain object (its own properties, in insertion
  order) or \<open>Host k\<close>: the built-in member \<open>k\<close> that a property read reaches through a
  prototype (\<open>({}).toString\<close>, \<open>[].map\<close>, \<open>({}).__proto__\<close>).  Numbers are exact
  rationals: rounding and overflow of IEEE doubles are not represented, and where the
  module adds to a number it has read (the version counter of \<open>updateSettings\<close>) the
  model keeps to the numbers on which the sum is exact.  Strings are 8-bit character
  lists, so \<open>length\<close> agrees with JavaScript on ASCII text.
\<close>

datatype jsval =
    Undefined
  | Null
  | Bool bool
  | Num rat
  | Str string
  | Arr "jsval list" "(string \<times> jsval) list"
  | Obj "(string \<times> jsval) list"
  | Host string

text \<open>
  Every \<open>throw\<close> of the module and every exception the engine raises on its behalf is a
  constructor.  \<open>TypeError\<close> and \<open>RangeError\<close> are the engine's own; \<open>SyntaxError\<close> is
  \<open>JSON.parse\<close>'s; \<open>RegistryError\<close> is what the registry binding throws and
  \<open>FsError code\<close> what \<open>fs.readFileSync\<close> throws, with its \<open>code\<close>; the others are the
  \<open>throw new ...\<close> sites of the module, carrying the argument they name.
\<close>

datatype error =
    TypeError
  | RangeError
  | SyntaxError
  | UnexpectedArgument string
  | InvalidNoModalDialogs string
  | NoSuchEntry string
  | CantOverwrite string
  | NoValueProvided string
  | CantEvaluate string string string
  | TypeOfMismatch string string
  | ErrorParsingLocked
  | RegistryError
  | FsError string

text \<open>
  A call returns, throws, or leaves the fragment of JavaScript that is modelled
  (\<open>Unmodelled\<close>: the result depends on the inside of a host object, on an array with
  holes, or on a coercion that is not represented).  No theorem below draws a conclusion
  from \<open>Unmodelled\<close>.
\<close>

datatype 'a outcome = Returns 'a | Throws error | Unmodelled

fun andThen :: "'a outcome \<Rightarrow> ('a \<Rightarrow> 'b outcome) \<Rightarrow> 'b outcome" where
  "andThen (Returns x) f = f x"
| "andThen (Throws e) f = Throws e"
| "andThen Unmodelled f = Unmodelled"

lemma andThen_cong [fundef_cong]:
  "m = m' \<Longrightarrow> (\<And>x. m' = Returns x \<Longrightarrow> f x = f' x) \<Longrightarrow> andThen m f = andThen m' f'"
  by (cases m') auto

fun typeof :: "jsval \<Rightarrow> string" where
  "typeof Undefined = ''undefined''"
| "typeof Null = ''object''"
| "typeof (Bool b) = ''boolean''"
| "typeof (Num n) = ''number''"
| "typeof (Str s) = ''string''"
| "typeof (Arr xs ps) = ''object''"
| "typeof (Obj ps) = ''object''"
| "typeof (Host h) = (if h = ''__proto__'' then ''object'' else ''function'')"

text \<open>\<open>ToBoolean\<close>: what \<open>||\<close>, \<open>!\<close> and \<open>if\<close> test.\<close>

fun truthy :: "jsval \<Rightarrow> bool" where
  "truthy Undefined = False"
| "truthy Null = False"
| "truthy (Bool b) = b"
| "truthy (Num n) = (n \<noteq> 0)"
| "truthy (Str s) = (s \<noteq> [])"
| "truthy (Arr xs ps) = True"
| "truthy (Obj ps) = True"
| "truthy (Host h) = True"

fun Array_isArray :: "jsval \<Rightarrow> bool" where
  "Array_isArray (Arr xs ps) = True"
| "Array_isArray v = False"

text \<open>lodash's \<open>isObject\<close>: objects, arrays and functions, not \<open>null\<close>.\<close>

fun isObject :: "jsval \<Rightarrow> bool" where
  "isObject (Arr xs ps) = True"
| "isObject (Obj ps) = True"
| "isObject (Host h) = True"
| "isObject v = False"

text \<open>
  \<open>a !== b\<close> where at least one side is a primitive: the operands differ unless they are
  the same primitive.  (Objects compare by identity; the module only ever compares a
  value with a boolean.)
\<close>

definition strict_neq :: "jsval \<Rightarrow> jsval \<Rightarrow> bool" where
  "strict_neq a b = (a \<noteq> b)"

subsection \<open>Property names reached through the prototypes\<close>

text \<open>
  The string-keyed members of \<open>Object.prototype\<close>, \<open>Array.prototype\<close>,
  \<open>String.prototype\<close> and \<open>Number.prototype\<close> of an ECMAScript 2022 host.  The \<open>in\<close>
  operator and a property read see them on every object.
\<close>

definition objectPrototypeNames :: "string list" where
  "objectPrototypeNames =
     [''constructor'', ''__defineGetter__'', ''__defineSetter__'', ''hasOwnProperty'',
      ''__lookupGetter__'', ''__lookupSetter__'', ''isPrototypeOf'',
      ''propertyIsEnumerable'', ''toString'', ''valueOf'', ''__proto__'',
      ''toLocaleString'']"

definition arrayPrototypeNames :: "string list" where
  "arrayPrototypeNames =
     [''at'', ''concat'', ''copyWithin'', ''fill'', ''find'', ''findIndex'', ''findLast'',
      ''findLastIndex'', ''lastIndexOf'', ''pop'', ''push'', ''reverse'', ''shift'',
      ''unshift'', ''slice'', ''sort'', ''splice'', ''includes'', ''indexOf'', ''join'',
      ''keys'', ''entries'', ''values'', ''forEach'', ''filter'', ''flat'', ''flatMap'',
      ''map'', ''every'', ''some'', ''reduce'', ''reduceRight'']"

definition stringPrototypeNames :: "string list" where
  "stringPrototypeNames =
     [''anchor'', ''at'', ''big'', ''blink'', ''bold'', ''charAt'', ''charCodeAt'',
      ''codePointAt'', ''concat'', ''endsWith'', ''fontcolor'', ''fontsize'', ''fixed'',
      ''includes'', ''indexOf'', ''italics'', ''lastIndexOf'', ''link'',
      ''localeCompare'', ''match'', ''matchAll'', ''normalize'', ''padEnd'', ''padStart'',
      ''repeat'', ''replace'', ''replaceAll'', ''search'', ''slice'', ''small'', ''split'',
      ''strike'', ''sub'', ''substr'', ''substring'', ''sup'', ''startsWith'',
      ''toLowerCase'', ''toUpperCase'', ''toLocaleLowerCase'', ''toLocaleUpperCase'',
      ''trim'', ''trimStart'', ''trimLeft'', ''trimEnd'', ''trimRight'']"

definition numberPrototypeNames :: "string list" where
  "numberPrototypeNames = [''toExponential'', ''toFixed'', ''toPrecision'']"

subsection \<open>Array indices\<close>

definition digit_of :: "char \<Rightarrow> int option" where
  "digit_of c =
     map_of [(CHR ''0'', 0), (CHR ''1'', 1), (CHR ''2'', 2), (CHR ''3'', 3), (CHR ''4'', 4),
             (CHR ''5'', 5), (CHR ''6'', 6), (CHR ''7'', 7), (CHR ''8'', 8), (CHR ''9'', 9)] c"

definition is_digit :: "char \<Rightarrow> bool" where
  "is_digit c = (digit_of c \<noteq> None)"

fun digits_value :: "int \<Rightarrow> string \<Rightarrow> int" where
  "digits_value acc [] = acc"
| "digits_value acc (c # cs) =
     digits_value (10 * acc + (case digit_of c of Some d \<Rightarrow> d | None \<Rightarrow> 0)) cs"

text \<open>
  A property key is an array index when it is the canonical decimal of a number below
  \<open>2^32 - 1\<close>: digits only, and no leading zero except in \<open>0\<close> itself.
\<close>

definition array_index :: "string \<Rightarrow> nat option" where
  "array_index k =
     (if k \<noteq> [] \<and> list_all is_digit k \<and> (k = ''0'' \<or> take 1 k \<noteq> ''0'')
      then (if digits_value 0 k < 4294967295 then Some (nat (digits_value 0 k)) else None)
      else None)"

subsection \<open>Reading, testing, writing and deleting a property\<close>

text \<open>\<open>v[k]\<close> and \<open>v.k\<close>.  Reading a property of \<open>undefined\<close> or \<open>null\<close> throws.\<close>

fun get_prop :: "jsval \<Rightarrow> string \<Rightarrow> jsval outcome" where
  "get_prop Undefined k = Throws TypeError"
| "get_prop Null k = Throws TypeError"
| "get_prop (Bool b) k =
     Returns (if k \<in> set objectPrototypeNames then Host k else Undefined)"
| "get_prop (Num n) k =
     Returns (if k \<in> set (numberPrototypeNames @ objectPrototypeNames) then Host k
              else Undefined)"
| "get_prop (Str s) k =
     Returns (case array_index k of
                Some i \<Rightarrow> if i < length s then Str [s ! i] else Undefined
              | None \<Rightarrow>
                  if k = ''length'' then Num (of_nat (length s))
                  else if k \<in> set (stringPrototypeNames @ objectPrototypeNames) then Host k
                  else Undefined)"
| "get_prop (Arr xs ps) k =
     Returns (case array_index k of
                Some i \<Rightarrow> if i < length xs then xs ! i else Undefined
              | None \<Rightarrow>
                  if k = ''length'' then Num (of_nat (length xs))
                  else (case map_of ps k of
                          Some v \<Rightarrow> v
                        | None \<Rightarrow>
                            if k \<in> set (arrayPrototypeNames @ objectPrototypeNames)
                            then Host k else Undefined))"
| "get_prop (Obj ps) k =
     Returns (case map_of ps k of
                Some v \<Rightarrow> v
              | None \<Rightarrow> if k \<in> set objectPrototypeNames then Host k else Undefined)"
| "get_prop (Host h) k = Unmodelled"

text \<open>
  \<open>k in v\<close>: own or inherited.  The operator throws a \<open>TypeError\<close> when its right operand
  is not an object.
\<close>

fun has_prop :: "string \<Rightarrow> jsval \<Rightarrow> bool outcome" where
  "has_prop k (Obj ps) = Returns (map_of ps k \<noteq> None \<or> k \<in> set objectPrototypeNames)"
| "has_prop k (Arr xs ps) =
     Returns (case array_index k of
                Some i \<Rightarrow> i < length xs
              | None \<Rightarrow> k = ''length'' \<or> map_of ps k \<noteq> None
                         \<or> k \<in> set (arrayPrototypeNames @ objectPrototypeNames))"
| "has_prop k (Host h) = Unmodelled"
| "has_prop k v = Throws TypeError"

text \<open>
  \<open>v[k] = x\<close> in strict mode (the module is an ES module); the result is \<open>v\<close> after the
  assignment.  An existing own property keeps its place, a new one goes last.  Creating a
  property on a primitive throws.  Assignments that would leave a hole in an array, change
  its length other than by truncation, or replace a prototype are not modelled.
\<close>

fun set_prop :: "jsval \<Rightarrow> string \<Rightarrow> jsval \<Rightarrow> jsval outcome" where
  "set_prop (Obj ps) k x =
     (if k = ''__proto__'' then Unmodelled else Returns (Obj (AList.update k x ps)))"
| "set_prop (Arr xs ps) k x =
     (case array_index k of
        Some i \<Rightarrow>
          if i < length xs then Returns (Arr (xs[i := x]) ps)
          else if i = length xs then Returns (Arr (xs @ [x]) ps)
          else Unmodelled
      | None \<Rightarrow>
          if k = ''length'' then
            (case x of
               Num n \<Rightarrow>
                 if 0 \<le> n \<and> n \<le> of_nat (length xs) \<and> n = of_int \<lfloor>n\<rfloor>
                 then Returns (Arr (take (nat \<lfloor>n\<rfloor>) xs) ps)
                 else if n = of_int \<lfloor>n\<rfloor> \<and> 0 \<le> n \<and> n < 4294967296 then Unmodelled
                 else Throws RangeError
             | _ \<Rightarrow> Unmodelled)
          else if k = ''__proto__'' then Unmodelled
          else Returns (Arr xs (AList.update k x ps)))"
| "set_prop (Host h) k x = Unmodelled"
| "set_prop v k x = Throws TypeError"

text \<open>
  \<open>delete v[k]\<close> in strict mode; the result is \<open>v\<close> afterwards.  Only own properties are
  removed; deleting a name that is not an own property does nothing.  Deleting an array
  element would leave a hole.
\<close>

fun delete_prop :: "jsval \<Rightarrow> string \<Rightarrow> jsval outcome" where
  "delete_prop Undefined k = Throws TypeError"
| "delete_prop Null k = Throws TypeError"
| "delete_prop (Obj ps) k = Returns (Obj (AList.delete k ps))"
| "delete_prop (Arr xs ps) k =
     (case array_index k of
        Some i \<Rightarrow> if i < length xs then Unmodelled else Returns (Arr xs ps)
      | None \<Rightarrow>
          if k = ''length'' then Throws TypeError
          else Returns (Arr xs (AList.delete k ps)))"
| "delete_prop (Str s) k =
     (case array_index k of
        Some i \<Rightarrow> if i < length s then Throws TypeError else Returns (Str s)
      | None \<Rightarrow> if k = ''length'' then Throws TypeError else Returns (Str s))"
| "delete_prop (Host h) k = Unmodelled"
| "delete_prop v k = Returns v"

text \<open>
  \<open>parent.k.f = ...\<close>, \<open>delete parent.k.f\<close> and a recursive call that mutates
  \<open>parent[k]\<close> in place: read the child, change it, and, when the child is an object that
  \<open>parent\<close> holds, see the change through \<open>parent\<close>.  A change made to a primitive child
  is made to a temporary wrapper and lost.
\<close>

definition in_child :: "jsval \<Rightarrow> string \<Rightarrow> (jsval \<Rightarrow> jsval outcome) \<Rightarrow> jsval outcome" where
  "in_child parent k f =
     andThen (get_prop parent k) (\<lambda>child.
       andThen (f child) (\<lambda>child'.
         if isObject child then set_prop parent k child' else Returns parent))"

text \<open>\<open>Object.keys(v).length\<close>.\<close>

fun own_key_count :: "jsval \<Rightarrow> nat outcome" where
  "own_key_count Undefined = Throws TypeError"
| "own_key_count Null = Throws TypeError"
| "own_key_count (Bool b) = Returns 0"
| "own_key_count (Num n) = Returns 0"
| "own_key_count (Str s) = Returns (length s)"
| "own_key_count (Arr xs ps) = Returns (length xs + length ps)"
| "own_key_count (Obj ps) = Returns (length ps)"
| "own_key_count (Host h) = Unmodelled"

section \<open>The compiled-in default settings\<close>

text \<open>
  \<open>CURRENT_SETTINGS_VERSION\<close>, the \<open>ContainerEngine\<close> enum and \<open>defaultSettings\<close>.
  \<open>PathManagementStrategy.NotSet\<close> is a member of a string enum declared in another
  module; its value is the parameter \<open>notSet\<close>.
\<close>

definition CURRENT_SETTINGS_VERSION :: rat where
  "CURRENT_SETTINGS_VERSION = 5"

definition ContainerEngine_NONE :: string where
  "ContainerEngine_NONE = []"

definition ContainerEngine_CONTAINERD :: string where
  "ContainerEngine_CONTAINERD = ''containerd''"

definition ContainerEngine_MOBY :: string where
  "ContainerEngine_MOBY = ''moby''"

definition defaultSettings :: "string \<Rightarrow> jsval" where
  "defaultSettings notSet =
     Obj [(''version'', Num CURRENT_SETTINGS_VERSION),
          (''application'',
             Obj [(''adminAccess'', Bool True),
                  (''debug'', Bool False),
                  (''pathManagementStrategy'', Str notSet),
                  (''telemetry'', Obj [(''enabled'', Bool True)]),
                  (''updater'', Obj [(''enabled'', Bool True)])]),
          (''containerEngine'',
             Obj [(''imageAllowList'',
                     Obj [(''enabled'', Bool False),
                          (''locked'', Bool False),
                          (''patterns'', Arr [] [])]),
                  (''name'', Str ContainerEngine_CONTAINERD)]),
          (''virtualMachine'',
             Obj [(''memoryInGB'', Num 2),
                  (''numberCPUs'', Num 2),
                  (''hostResolver'', Bool True)]),
          (''WSL'', Obj [(''integrations'', Obj [])]),
          (''kubernetes'',
             Obj [(''version'', Str []),
                  (''port'', Num 6443),
                  (''enabled'', Bool True),
                  (''options'', Obj [(''traefik'', Bool True), (''flannel'', Bool True)])]),
          (''portForwarding'', Obj [(''includeKubernetesServices'', Bool False)]),
          (''images'', Obj [(''showAll'', Bool True), (''namespace'', Str ''k8s.io'')]),
          (''diagnostics'', Obj [(''showMuted'', Bool False), (''mutedChecks'', Obj [])]),
          (''autoStart'', Bool False),
          (''startInBackground'', Bool False),
          (''hideNotificationIcon'', Bool False),
          (''window'', Obj [(''quitOnClose'', Bool False)]),
          (''experimental'',
             Obj [(''virtualMachine'', Obj [(''socketVMNet'', Bool False)])])]"

section \<open>Deployment profiles\<close>

subsection \<open>validateDeploymentProfile\<close>

text \<open>
  The routine walks \<open>Object.keys(profile)\<close> and deletes from \<open>profile\<close> in place; the
  model walks the own properties in order and returns what is left.  The test
  \<open>Array.isArray(profile[key] !== Array.isArray(schema[key]))\<close> is kept as written: it
  applies \<open>Array.isArray\<close> to the boolean that \<open>!==\<close> yields.  A profile that is a
  non-empty array or string (keys that are indices) is not modelled.
\<close>

fun validateDeploymentProfile :: "jsval \<Rightarrow> jsval \<Rightarrow> jsval outcome"
and validate_keys :: "(string \<times> jsval) list \<Rightarrow> jsval \<Rightarrow> (string \<times> jsval) list outcome"
where
  "validateDeploymentProfile Undefined schema = Returns Undefined"
| "validateDeploymentProfile Null schema = Throws TypeError"
| "validateDeploymentProfile (Bool b) schema = Returns (Bool b)"
| "validateDeploymentProfile (Num n) schema = Returns (Num n)"
| "validateDeploymentProfile (Str s) schema = (if s = [] then Returns (Str s) else Unmodelled)"
| "validateDeploymentProfile (Arr xs ps) schema =
     (if xs = [] \<and> ps = [] then Returns (Arr xs ps) else Unmodelled)"
| "validateDeploymentProfile (Obj ps) schema =
     andThen (validate_keys ps schema) (\<lambda>ps'. Returns (Obj ps'))"
| "validateDeploymentProfile (Host h) schema = Unmodelled"
| "validate_keys [] schema = Returns []"
| "validate_keys ((key, v) # ps) schema =
     andThen (has_prop key schema) (\<lambda>inSchema.
       if inSchema then
         andThen (get_prop schema key) (\<lambda>sv.
           if typeof v = typeof sv then
             if typeof v = ''object'' then
               if Array_isArray (Bool (strict_neq v (Bool (Array_isArray sv)))) then
                 validate_keys ps schema
               else if \<not> Array_isArray v then
                 andThen (validateDeploymentProfile v sv) (\<lambda>v'.
                   andThen (validate_keys ps schema) (\<lambda>rest. Returns ((key, v') # rest)))
               else
                 andThen (validate_keys ps schema) (\<lambda>rest. Returns ((key, v) # rest))
             else
               andThen (validate_keys ps schema) (\<lambda>rest. Returns ((key, v) # rest))
           else validate_keys ps schema)
       else validate_keys ps schema)"

subsection \<open>The registry (Windows)\<close>

text \<open>
  \<open>nativeReg.getValue(key, subKey, name)\<close> returns the value, \<open>null\<close> when there is none,
  and throws when the read fails or the stored data has a type it cannot decode.  An
  opened key is the list of its readable entries, addressed by sub-key path and value
  name; \<open>nativeReg.openKey\<close> returns \<open>null\<close> when the key does not exist and throws on
  any other failure.
\<close>

datatype regread = RegValue jsval | RegFails

type_synonym regkey = "((string list \<times> string) \<times> regread) list"

datatype hive = KeyAbsent | KeyOpenFails | Key regkey

definition getValue :: "regkey \<Rightarrow> string list \<Rightarrow> string \<Rightarrow> jsval outcome" where
  "getValue regKey regPath name =
     (case map_of regKey (regPath, name) of
        None \<Rightarrow> Returns Null
      | Some (RegValue v) \<Rightarrow> Returns v
      | Some RegFails \<Rightarrow> Throws RegistryError)"

text \<open>
  \<open>readRegistryUsingSchema(object, schemaObj, regKey, regPath)\<close>: the loop over
  \<open>Object.entries(schemaObj)\<close> is \<open>readRegistryEntries\<close>, which carries \<open>newObject\<close>.
\<close>

fun readRegistryUsingSchema :: "jsval \<Rightarrow> jsval \<Rightarrow> regkey \<Rightarrow> string list \<Rightarrow> jsval outcome"
and readRegistryEntries ::
  "jsval \<Rightarrow> (string \<times> jsval) list \<Rightarrow> regkey \<Rightarrow> string list \<Rightarrow> jsval \<Rightarrow> jsval outcome"
where
  "readRegistryUsingSchema object (Obj ps) regKey regPath =
     readRegistryEntries object ps regKey regPath Undefined"
| "readRegistryUsingSchema object Undefined regKey regPath = Throws TypeError"
| "readRegistryUsingSchema object Null regKey regPath = Throws TypeError"
| "readRegistryUsingSchema object (Bool b) regKey regPath = Returns Undefined"
| "readRegistryUsingSchema object (Num n) regKey regPath = Returns Undefined"
| "readRegistryUsingSchema object (Str s) regKey regPath =
     (if s = [] then Returns Undefined else Unmodelled)"
| "readRegistryUsingSchema object (Arr xs qs) regKey regPath =
     (if xs = [] then readRegistryEntries object qs regKey regPath Undefined else Unmodelled)"
| "readRegistryUsingSchema object (Host h) regKey regPath = Unmodelled"
| "readRegistryEntries object [] regKey regPath newObject = Returns newObject"
| "readRegistryEntries object ((schemaKey, schemaVal) # rest) regKey regPath newObject =
     andThen
       (if typeof schemaVal = ''object'' \<and> \<not> Array_isArray schemaVal
        then readRegistryUsingSchema object schemaVal regKey (regPath @ [schemaKey])
        else getValue regKey regPath schemaKey)
       (\<lambda>regValue.
          if typeof regValue \<noteq> ''undefined'' \<and> regValue \<noteq> Null then
            andThen
              (set_prop (if newObject = Undefined \<or> newObject = Null then Obj [] else newObject)
                 schemaKey
                 (if typeof schemaVal = ''boolean''
                  then (if typeof regValue = ''number'' then Bool (regValue \<noteq> Num 0)
                        else Bool False)
                  else regValue))
              (\<lambda>newObject'. readRegistryEntries object rest regKey regPath newObject')
          else readRegistryEntries object rest regKey regPath newObject)"

subsection \<open>Profile files (Linux and macOS)\<close>

text \<open>
  What reading and parsing one profile file comes to: \<open>fs.readFileSync\<close> throws with
  code \<open>ENOENT\<close> (\<open>Missing\<close>) or with another code (\<open>Unreadable\<close>), the parser
  (\<open>JSON\<close> or \<open>plist\<close>) throws (\<open>Malformed\<close>), or the parser returns a value.  A root
  directory is its two files.
\<close>

datatype artifact = Missing | Unreadable | Malformed | Parsed jsval

record root =
  defaultsFile :: artifact
  lockedFile :: artifact

record profiles =
  defaults :: jsval
  locked :: jsval

fun readProfileFiles :: "root \<Rightarrow> profiles outcome" where
  "readProfileFiles rootPath =
     (let defaults = (case defaultsFile rootPath of Parsed v \<Rightarrow> v | _ \<Rightarrow> Undefined) in
      case lockedFile rootPath of
        Parsed v \<Rightarrow> Returns \<lparr>defaults = defaults, locked = v\<rparr>
      | Missing \<Rightarrow> Returns \<lparr>defaults = defaults, locked = Undefined\<rparr>
      | Unreadable \<Rightarrow> Throws ErrorParsingLocked
      | Malformed \<Rightarrow> Throws ErrorParsingLocked)"

subsection \<open>readDeploymentProfiles\<close>

datatype platform = Win32 | Linux | Darwin | OtherPlatform

record profile_env =
  platform :: platform
  HKLM :: hive
  HKCU :: hive
  deploymentProfileSystem :: root
  deploymentProfileUser :: root

definition isDefined :: "profiles \<Rightarrow> bool" where
  "isDefined p = (typeof (defaults p) \<noteq> ''undefined'' \<or> typeof (locked p) \<noteq> ''undefined'')"

text \<open>
  One turn of the \<open>win32\<close> loop up to the test that ends it: \<open>openKey\<close> stands outside
  the \<open>try\<close>; inside it the two assignments to the function's \<open>profiles\<close> follow each
  other, and the \<open>catch\<close> logs whatever was thrown and goes on.
\<close>

definition readRegistryKey :: "string \<Rightarrow> hive \<Rightarrow> profiles \<Rightarrow> profiles outcome" where
  "readRegistryKey notSet key p =
     (case key of
        KeyOpenFails \<Rightarrow> Throws RegistryError
      | KeyAbsent \<Rightarrow> Returns p
      | Key registryKey \<Rightarrow>
          (case readRegistryUsingSchema Null (defaultSettings notSet) registryKey [''Defaults''] of
             Unmodelled \<Rightarrow> Unmodelled
           | Throws err \<Rightarrow> Returns p
           | Returns d \<Rightarrow>
               (case readRegistryUsingSchema Null (defaultSettings notSet) registryKey [''Locked''] of
                  Unmodelled \<Rightarrow> Unmodelled
                | Throws err \<Rightarrow> Returns (p\<lparr>defaults := d\<rparr>)
                | Returns l \<Rightarrow> Returns (p\<lparr>defaults := d, locked := l\<rparr>))))"

fun readRegistryKeys :: "string \<Rightarrow> hive list \<Rightarrow> profiles \<Rightarrow> profiles outcome" where
  "readRegistryKeys notSet [] p = Returns p"
| "readRegistryKeys notSet (key # keys) p =
     andThen (readRegistryKey notSet key p) (\<lambda>p'.
       if isDefined p' then Returns p' else readRegistryKeys notSet keys p')"

text \<open>
  The \<open>linux\<close> and \<open>darwin\<close> loops declare a \<open>const profiles\<close> of their own inside the
  loop body.  What \<open>readProfileFiles\<close> returns is bound to that inner constant, which
  the test that ends the loop reads; the function's \<open>profiles\<close> is not assigned.  The
  loop therefore yields nothing but a possible exception.
\<close>

fun readProfileRoots :: "root list \<Rightarrow> unit outcome" where
  "readProfileRoots [] = Returns ()"
| "readProfileRoots (rootPath # rootPaths) =
     andThen (readProfileFiles rootPath) (\<lambda>inner.
       if isDefined inner then Returns () else readProfileRoots rootPaths)"

text \<open>\<open>v ?? {}\<close>.\<close>

definition orEmptyObject :: "jsval \<Rightarrow> jsval" where
  "orEmptyObject v = (if v = Undefined \<or> v = Null then Obj [] else v)"

definition validateProfiles :: "string \<Rightarrow> profiles \<Rightarrow> profiles outcome" where
  "validateProfiles notSet p =
     andThen (validateDeploymentProfile (defaults p) (defaultSettings notSet)) (\<lambda>d.
       andThen (validateDeploymentProfile (locked p) (defaultSettings notSet)) (\<lambda>l.
         Returns \<lparr>defaults = orEmptyObject d, locked = orEmptyObject l\<rparr>))"

definition readDeploymentProfiles :: "string \<Rightarrow> profile_env \<Rightarrow> profiles outcome" where
  "readDeploymentProfiles notSet env =
     (let profiles = \<lparr>defaults = Undefined, locked = Undefined\<rparr> in
      case platform env of
        Win32 \<Rightarrow>
          andThen (readRegistryKeys notSet [HKLM env, HKCU env] profiles)
            (validateProfiles notSet)
      | Linux \<Rightarrow>
          andThen
            (readProfileRoots [deploymentProfileSystem env, deploymentProfileUser env])
            (\<lambda>u. validateProfiles notSet profiles)
      | Darwin \<Rightarrow>
          andThen
            (readProfileRoots [deploymentProfileSystem env, deploymentProfileUser env])
            (\<lambda>u. validateProfiles notSet profiles)
      | OtherPlatform \<Rightarrow> validateProfiles notSet profiles)"

section \<open>Command-line overrides\<close>

subsection \<open>getUpdatableNode\<close>

text \<open>\<open>s.split('.')\<close>: never empty; the empty string splits into one empty part.\<close>

fun split_dot :: "string \<Rightarrow> string list" where
  "split_dot [] = [[]]"
| "split_dot (c # cs) =
     (if c = CHR ''.'' then [] # split_dot cs
      else (case split_dot cs of p # ps \<Rightarrow> (c # p) # ps | [] \<Rightarrow> [[c]]))"

text \<open>
  The function returns a reference into \<open>cfg\<close> that its caller assigns through.  The
  model returns the subtree together with its place: the path of own properties that
  leads to it from \<open>cfg\<close>, or \<open>None\<close> when the subtree is the temporary \<open>{}\<close> that the
  walk puts in place of a falsy value (an assignment to it is lost), or is not an object
  that \<open>cfg\<close> holds.
\<close>

record node =
  subtree :: jsval
  place :: "string list option"
  finalFieldName :: string

definition step_place :: "string list option \<Rightarrow> string \<Rightarrow> jsval \<Rightarrow> string list option" where
  "step_place loc field v =
     (case loc of
        Some path \<Rightarrow>
          (case v of Obj ps \<Rightarrow> Some (path @ [field])
                   | Arr xs ps \<Rightarrow> Some (path @ [field])
                   | _ \<Rightarrow> None)
      | None \<Rightarrow> None)"

text \<open>The loop \<open>for (const field of optionParts) currentConfig = currentConfig[field] || {}\<close>.\<close>

fun walk :: "string list \<Rightarrow> jsval \<Rightarrow> string list option \<Rightarrow> (jsval \<times> string list option) outcome"
where
  "walk [] currentConfig loc = Returns (currentConfig, loc)"
| "walk (field # optionParts) currentConfig loc =
     andThen (get_prop currentConfig field) (\<lambda>v.
       if truthy v then walk optionParts v (step_place loc field v)
       else walk optionParts (Obj []) None)"

definition getUpdatableNode :: "jsval \<Rightarrow> string \<Rightarrow> node option outcome" where
  "getUpdatableNode cfg fqFieldAccessor =
     (let optionParts = split_dot fqFieldAccessor;
          finalOptionPart = last optionParts
      in andThen (walk (butlast optionParts) cfg (Some [])) (\<lambda>(currentConfig, loc).
           andThen (has_prop finalOptionPart currentConfig) (\<lambda>found.
             Returns (if found
                      then Some \<lparr>subtree = currentConfig, place = loc,
                                  finalFieldName = finalOptionPart\<rparr>
                      else None))))"

subsection \<open>The module's variables, and save\<close>

text \<open>
  \<open>isFirstRun\<close> is the module's \<open>_isFirstRun\<close>, \<open>moduleSettings\<close> its \<open>settings\<close>
  (\<open>None\<close> while it is \<open>undefined\<close>).  \<open>saved\<close> lists what \<open>save\<close> was called with,
  oldest first: \<open>save\<close> serialises its argument and writes the settings file, and when
  the write throws it shows the error in a dialog box and returns all the same.

  Modelled from the spec: \<open>TransientSettings.update\<close> (the module
  \<open>@pkg/config/transientSettings\<close>), a separate in-memory store of process-lifetime
  flags; \<open>noModalDialogs\<close> is the flag the command line sets, \<open>None\<close> until it does.
\<close>

record store =
  isFirstRun :: bool
  moduleSettings :: "jsval option"
  saved :: "jsval list"
  noModalDialogs :: "bool option"

definition save :: "jsval \<Rightarrow> store \<Rightarrow> store" where
  "save cfg st = st\<lparr>saved := saved st @ [cfg]\<rparr>"

subsection \<open>JSON.parse on scalars\<close>

text \<open>
  \<open>JSON.parse\<close> on a text that, white space aside, is \<open>true\<close>, \<open>false\<close>, \<open>null\<close> or a
  number, and on a text that is no JSON at all.  A text that begins a JSON string, array
  or object is not modelled.
\<close>

definition json_ws :: "char \<Rightarrow> bool" where
  "json_ws c = (c = CHR '' '' \<or> c = CHR 0x09 \<or> c = CHR 0x0A \<or> c = CHR 0x0D)"

definition trim_ws :: "string \<Rightarrow> string" where
  "trim_ws s = rev (dropWhile json_ws (rev (dropWhile json_ws s)))"

text \<open>The JSON number grammar: \<open>-? (0 | [1-9][0-9]*) (. [0-9]+)? ([eE] [+-]? [0-9]+)?\<close>.\<close>

definition json_number :: "string \<Rightarrow> rat option" where
  "json_number s =
     (let negative = (take 1 s = ''-'');
          s1 = (if negative then drop 1 s else s);
          intDigits = takeWhile is_digit s1;
          s2 = dropWhile is_digit s1;
          hasFrac = (take 1 s2 = ''.'');
          fracDigits = (if hasFrac then takeWhile is_digit (drop 1 s2) else []);
          s3 = (if hasFrac then dropWhile is_digit (drop 1 s2) else s2);
          hasExp = (take 1 s3 = ''e'' \<or> take 1 s3 = ''E'');
          s4 = (if hasExp then drop 1 s3 else s3);
          expNegative = (hasExp \<and> take 1 s4 = ''-'');
          s5 = (if hasExp \<and> (take 1 s4 = ''-'' \<or> take 1 s4 = ''+'') then drop 1 s4 else s4);
          expDigits = (if hasExp then takeWhile is_digit s5 else []);
          s6 = (if hasExp then dropWhile is_digit s5 else s5);
          mantissa = of_int (digits_value 0 intDigits)
                     + of_int (digits_value 0 fracDigits) / 10 ^ length fracDigits;
          scaled = (if expNegative then mantissa / 10 ^ nat (digits_value 0 expDigits)
                    else mantissa * 10 ^ nat (digits_value 0 expDigits))
      in if intDigits \<noteq> [] \<and> (intDigits = ''0'' \<or> take 1 intDigits \<noteq> ''0'')
            \<and> (hasFrac = (fracDigits \<noteq> [])) \<and> (hasExp = (expDigits \<noteq> [])) \<and> s6 = []
         then Some (if negative then - scaled else scaled)
         else None)"

definition JSON_parse :: "string \<Rightarrow> jsval outcome" where
  "JSON_parse text =
     (let t = trim_ws text in
      if t = ''true'' then Returns (Bool True)
      else if t = ''false'' then Returns (Bool False)
      else if t = ''null'' then Returns Null
      else if take 1 t = [CHR 0x22] \<or> take 1 t = ''['' \<or> take 1 t = ''{'' then Unmodelled
      else (case json_number t of Some n \<Rightarrow> Returns (Num n) | None \<Rightarrow> Throws SyntaxError))"

subsection \<open>updateFromCommandLine\<close>

text \<open>
  \<open>arg.indexOf('=')\<close> and the two \<open>substring\<close>s: the field name after the leading
  \<open>--\<close>, the text after the first \<open>=\<close>, and whether there is an \<open>=\<close>.
\<close>

definition splitArg :: "string \<Rightarrow> string \<times> string \<times> bool" where
  "splitArg arg =
     (if CHR ''='' \<in> set arg
      then (takeWhile (\<lambda>c. c \<noteq> CHR ''='') (drop 2 arg),
            drop 1 (dropWhile (\<lambda>c. c \<noteq> CHR ''='') arg), True)
      else (drop 2 arg, [], False))"

text \<open>
  \<open>cfg[path\<^sub>1]...[path\<^sub>n][k] = x\<close>, seen from \<open>cfg\<close>: the assignment through the reference
  that \<open>getUpdatableNode\<close> returned.
\<close>

fun set_at :: "jsval \<Rightarrow> string list \<Rightarrow> string \<Rightarrow> jsval \<Rightarrow> jsval outcome" where
  "set_at cfg [] k x = set_prop cfg k x"
| "set_at cfg (field # path) k x =
     andThen (get_prop cfg field) (\<lambda>child.
       andThen (set_at child path k x) (\<lambda>child'. set_prop cfg field child'))"

definition assignValue :: "jsval \<Rightarrow> node \<Rightarrow> jsval \<Rightarrow> jsval outcome" where
  "assignValue cfg lhsInfo finalValue =
     (case place lhsInfo of
        Some path \<Rightarrow> set_at cfg path (finalFieldName lhsInfo) finalValue
      | None \<Rightarrow>
          andThen (set_prop (subtree lhsInfo) (finalFieldName lhsInfo) finalValue)
            (\<lambda>temporary. Returns cfg))"

text \<open>
  One turn of the loop ends in one of three ways: it goes on (telling whether it took
  the next token as its value, the new \<open>processingExternalArguments\<close>, and \<open>cfg\<close> and
  the store as it leaves them), it throws, or it leaves the modelled fragment.  Each
  \<open>throw\<close> of the loop body comes before anything is assigned in that turn.
\<close>

datatype step = Continue bool bool jsval store | Raise error | OutOfModel

text \<open>
  The part of the loop body after \<open>currentValueType\<close> is known: the \<open>switch\<close> that
  chooses the text of the value, the \<open>JSON.parse\<close> and type test for booleans and
  numbers, and the assignment.
\<close>

definition overwrite ::
  "string \<Rightarrow> string list \<Rightarrow> string \<Rightarrow> string \<Rightarrow> bool \<Rightarrow> jsval \<Rightarrow> store \<Rightarrow> node \<Rightarrow> string \<Rightarrow> step"
where
  "overwrite arg rest fqFieldName val hasEqual cfg st lhsInfo currentValueType =
     (if currentValueType = ''object'' then Raise (CantOverwrite arg)
      else if currentValueType \<noteq> ''boolean'' \<and> \<not> hasEqual \<and> rest = []
      then Raise (NoValueProvided arg)
      else
        (let takesNext = (currentValueType \<noteq> ''boolean'' \<and> \<not> hasEqual);
             finalValue =
               (if hasEqual then val
                else if currentValueType = ''boolean'' then ''true''
                else (case rest of next # others \<Rightarrow> next | [] \<Rightarrow> val));
             assign = (\<lambda>x. case assignValue cfg lhsInfo x of
                              Returns cfg' \<Rightarrow> Continue takesNext False cfg' st
                            | Throws err \<Rightarrow> Raise err
                            | Unmodelled \<Rightarrow> OutOfModel)
         in if currentValueType = ''boolean'' \<or> currentValueType = ''number'' then
              (case JSON_parse finalValue of
                 Unmodelled \<Rightarrow> OutOfModel
               | Throws err \<Rightarrow> Raise (CantEvaluate fqFieldName finalValue currentValueType)
               | Returns parsed \<Rightarrow>
                   if typeof parsed \<noteq> currentValueType
                   then Raise (TypeOfMismatch fqFieldName currentValueType)
                   else assign parsed)
            else assign (Str finalValue)))"

definition processArg :: "string \<Rightarrow> string list \<Rightarrow> bool \<Rightarrow> jsval \<Rightarrow> store \<Rightarrow> step" where
  "processArg arg rest processingExternalArguments cfg st =
     (if take 2 arg \<noteq> ''--'' then
        (if processingExternalArguments then Continue False True cfg st
         else Raise (UnexpectedArgument arg))
      else
        (case splitArg arg of (fqFieldName, val, hasEqual) \<Rightarrow>
           if fqFieldName = ''no-modal-dialogs'' then
             (if val = [] \<or> val = ''true''
              then Continue False False cfg (st\<lparr>noModalDialogs := Some True\<rparr>)
              else if val = ''false''
              then Continue False False cfg (st\<lparr>noModalDialogs := Some False\<rparr>)
              else Raise (InvalidNoModalDialogs arg))
           else
             (case getUpdatableNode cfg fqFieldName of
                Unmodelled \<Rightarrow> OutOfModel
              | Throws err \<Rightarrow> Raise err
              | Returns None \<Rightarrow>
                  (if processingExternalArguments then Continue False True cfg st
                   else Raise (NoSuchEntry arg))
              | Returns (Some lhsInfo) \<Rightarrow>
                  (case get_prop (subtree lhsInfo) (finalFieldName lhsInfo) of
                     Unmodelled \<Rightarrow> OutOfModel
                   | Throws err \<Rightarrow> Raise err
                   | Returns currentValue \<Rightarrow>
                       overwrite arg rest fqFieldName val hasEqual cfg st lhsInfo
                         (typeof currentValue)))))"

text \<open>
  The \<open>for\<close> loop, over the tokens that are left.  Its result is what the loop ended
  with (the last \<open>processingExternalArguments\<close> when it ran to the end), \<open>cfg\<close> as the
  loop left it, and the store.
\<close>

fun processArgs :: "string list \<Rightarrow> bool \<Rightarrow> jsval \<Rightarrow> store \<Rightarrow> bool outcome \<times> jsval \<times> store" where
  "processArgs [] processingExternalArguments cfg st =
     (Returns processingExternalArguments, cfg, st)"
| "processArgs (arg # rest) processingExternalArguments cfg st =
     (case processArg arg rest processingExternalArguments cfg st of
        Continue takesNext external cfg' st' \<Rightarrow>
          processArgs (if takesNext then tl rest else rest) external cfg' st'
      | Raise err \<Rightarrow> (Throws err, cfg, st)
      | OutOfModel \<Rightarrow> (Unmodelled, cfg, st))"

text \<open>
  The result: what the call returns or throws, the object \<open>cfg\<close> as the call leaves it
  (it is changed in place), and the store.
\<close>

definition updateFromCommandLine ::
  "jsval \<Rightarrow> string list \<Rightarrow> store \<Rightarrow> jsval outcome \<times> jsval \<times> store"
where
  "updateFromCommandLine cfg commandLineArgs st =
     (case processArgs commandLineArgs True cfg st of
        (Returns external, cfg', st') \<Rightarrow>
          if length commandLineArgs > 0
          then (Returns cfg', cfg', (save cfg' st')\<lparr>isFirstRun := False\<rparr>)
          else (Returns cfg', cfg', st')
      | (Throws err, cfg', st') \<Rightarrow> (Throws err, cfg', st')
      | (Unmodelled, cfg', st') \<Rightarrow> (Unmodelled, cfg', st'))"

section \<open>Migration\<close>

subsection \<open>lodash's defaultsDeep\<close>

text \<open>
  \<open>_.defaultsDeep(object, source)\<close> is \<open>mergeWith\<close> under the customizer
  \<open>customDefaultsMerge\<close>; it changes \<open>object\<close> in place and returns it.  For each key
  of the source, in order: a value of \<open>object\<close> that is not \<open>undefined\<close> stays, and when
  it and the source's value are both objects the merge goes on inside it; where
  \<open>object\<close> has \<open>undefined\<close>, a source object or array is copied (by merging it into
  \<open>{}\<close> or \<open>[]\<close>) and a source scalar is assigned.  \<open>safeGet\<close> reads the value of
  \<open>object\<close> and hides \<open>__proto__\<close> and an inherited \<open>constructor\<close>.  A source
  array with elements is not modelled.
\<close>

definition safeGet :: "jsval \<Rightarrow> string \<Rightarrow> jsval outcome" where
  "safeGet object key =
     (if key = ''__proto__'' then Returns Undefined
      else andThen (get_prop object key) (\<lambda>v.
             Returns (if key = ''constructor'' \<and> typeof v = ''function'' then Undefined
                      else v)))"

definition emptyLike :: "jsval \<Rightarrow> jsval" where
  "emptyLike srcValue = (if Array_isArray srcValue then Arr [] [] else Obj [])"

fun baseMerge :: "jsval \<Rightarrow> jsval \<Rightarrow> jsval outcome"
and baseMergeKeys :: "jsval \<Rightarrow> (string \<times> jsval) list \<Rightarrow> jsval outcome"
where
  "baseMerge object (Obj qs) = baseMergeKeys object qs"
| "baseMerge object (Arr ys qs) = (if ys = [] then baseMergeKeys object qs else Unmodelled)"
| "baseMerge object (Host h) = Unmodelled"
| "baseMerge object (Str s) = (if s = [] then Returns object else Unmodelled)"
| "baseMerge object Undefined = Returns object"
| "baseMerge object Null = Returns object"
| "baseMerge object (Bool b) = Returns object"
| "baseMerge object (Num n) = Returns object"
| "baseMergeKeys object [] = Returns object"
| "baseMergeKeys object ((key, srcValue) # rest) =
     andThen (safeGet object key) (\<lambda>objValue.
       andThen
         (if isObject srcValue then
            (if objValue = Undefined then
               andThen (baseMerge (emptyLike srcValue) srcValue) (\<lambda>newValue.
                 set_prop object key newValue)
             else if isObject objValue then
               andThen (baseMerge objValue srcValue) (\<lambda>merged. set_prop object key merged)
             else Returns object)
          else
            (if objValue = Undefined then
               (if srcValue = Undefined then
                  andThen (has_prop key object) (\<lambda>found.
                    if found then Returns object else set_prop object key Undefined)
                else set_prop object key srcValue)
             else Returns object))
         (\<lambda>object'. baseMergeKeys object' rest))"

text \<open>
  The entry point applies \<open>Object(object)\<close> first: \<open>undefined\<close> and \<open>null\<close> become a new
  \<open>{}\<close>; a primitive would be boxed, which is not modelled.
\<close>

definition defaultsDeep :: "jsval \<Rightarrow> jsval \<Rightarrow> jsval outcome" where
  "defaultsDeep object source =
     (case object of
        Undefined \<Rightarrow> baseMerge (Obj []) source
      | Null \<Rightarrow> baseMerge (Obj []) source
      | Obj ps \<Rightarrow> baseMerge object source
      | Arr xs ps \<Rightarrow> baseMerge object source
      | _ \<Rightarrow> Unmodelled)"

subsection \<open>updateTable\<close>

text \<open>\<open>v.k\<^sub>1.k\<^sub>2...\<close>: a chain of property reads.\<close>

fun get_path :: "jsval \<Rightarrow> string list \<Rightarrow> jsval outcome" where
  "get_path v [] = Returns v"
| "get_path v (k # ks) = andThen (get_prop v k) (\<lambda>child. get_path child ks)"

text \<open>\<open>delete v.k\<close> for each \<open>k\<close> in turn, and \<open>delete v.c.k\<close> for each \<open>k\<close> in turn.\<close>

fun delete_each :: "jsval \<Rightarrow> string list \<Rightarrow> jsval outcome" where
  "delete_each v [] = Returns v"
| "delete_each v (k # ks) = andThen (delete_prop v k) (\<lambda>v'. delete_each v' ks)"

fun delete_each_in :: "jsval \<Rightarrow> string \<Rightarrow> string list \<Rightarrow> jsval outcome" where
  "delete_each_in v c [] = Returns v"
| "delete_each_in v c (k # ks) =
     andThen (in_child v c (\<lambda>child. delete_prop child k)) (\<lambda>v'. delete_each_in v' c ks)"

definition updateTable_1 :: "jsval \<Rightarrow> jsval outcome" where
  "updateTable_1 settings =
     andThen (get_prop settings ''kubernetes'') (\<lambda>kubernetes.
       andThen (has_prop ''rancherMode'' kubernetes) (\<lambda>found.
         if found then in_child settings ''kubernetes'' (\<lambda>k. delete_prop k ''rancherMode'')
         else Returns settings))"

definition updateTable_4 :: "jsval \<Rightarrow> jsval outcome" where
  "updateTable_4 settings =
     andThen (get_path settings [''kubernetes'', ''suppressSudo'']) (\<lambda>suppressSudo.
     andThen (get_prop settings ''debug'') (\<lambda>debug.
     andThen (get_prop settings ''pathManagementStrategy'') (\<lambda>pathManagementStrategy.
     andThen (get_prop settings ''telemetry'') (\<lambda>telemetry.
     andThen (get_prop settings ''updater'') (\<lambda>updater.
     andThen (set_prop settings ''application''
                (Obj [(''adminAccess'', Bool (\<not> truthy suppressSudo)),
                      (''debug'', debug),
                      (''pathManagementStrategy'', pathManagementStrategy),
                      (''telemetry'', Obj [(''enabled'', telemetry)]),
                      (''updater'', Obj [(''enabled'', updater)])])) (\<lambda>s1.
     andThen (get_path s1 [''kubernetes'', ''hostResolver'']) (\<lambda>hostResolver.
     andThen (get_path s1 [''kubernetes'', ''memoryInGB'']) (\<lambda>memoryInGB.
     andThen (get_path s1 [''kubernetes'', ''numberCPUs'']) (\<lambda>numberCPUs.
     andThen (set_prop s1 ''virtualMachine''
                (Obj [(''hostResolver'', hostResolver),
                      (''memoryInGB'', memoryInGB),
                      (''numberCPUs'', numberCPUs)])) (\<lambda>s2.
     andThen (get_path s2 [''kubernetes'', ''experimental'', ''socketVMNet'']) (\<lambda>socketVMNet.
     andThen (set_prop s2 ''experimental''
                (Obj [(''virtualMachine'', Obj [(''socketVMNet'', socketVMNet)])])) (\<lambda>s3.
     andThen (get_path s3 [''kubernetes'', ''WSLIntegrations'']) (\<lambda>wslIntegrations.
     andThen (set_prop s3 ''WSL'' (Obj [(''integrations'', wslIntegrations)])) (\<lambda>s4.
     andThen (get_path s4 [''kubernetes'', ''containerEngine'']) (\<lambda>engine.
     andThen (in_child s4 ''containerEngine'' (\<lambda>c. set_prop c ''name'' engine)) (\<lambda>s5.
     andThen (delete_each_in s5 ''kubernetes''
                [''containerEngine'', ''experimental'', ''hostResolver'',
                 ''checkForExistingKimBuilder'', ''memoryInGB'', ''numberCPUs'',
                 ''suppressSudo'', ''WSLIntegrations'']) (\<lambda>s6.
     delete_each s6 [''debug'', ''pathManagementStrategy'', ''telemetry'',
                     ''updater''])))))))))))))))))"

text \<open>
  \<open>updateTable[v]\<close>: the table has the keys 1 to 4; a number that is none of them (a
  fraction, zero, a negative number) finds no entry.
\<close>

definition updateTable :: "rat \<Rightarrow> (jsval \<Rightarrow> jsval outcome) option" where
  "updateTable v =
     (if v = 1 then Some updateTable_1
      else if v = 2 then Some Returns
      else if v = 3 then Some Returns
      else if v = 4 then Some updateTable_4
      else None)"

subsection \<open>updateSettings\<close>

text \<open>
  The loop \<open>for (; loadedVersion < CURRENT_SETTINGS_VERSION; loadedVersion++)\<close>.  The
  counter is an IEEE double, and \<open>loadedVersion++\<close> adds 1 and rounds.  On a safe integer
  (\<open>Number.isSafeInteger\<close>: an integer of magnitude at most \<open>2^53 - 1\<close>) below the current
  version the sum is exact.  On other numbers it is not: a fraction can round to an
  integer that has an entry in the table (\<open>1e-20 + 1\<close> is \<open>1\<close>), and a large negative
  number can round to itself (\<open>-1e17 + 1\<close> is \<open>-1e17\<close>), so that the loop never ends.  The
  model follows the loop on safe integers and leaves the other counters out.
\<close>

definition isSafeInteger :: "rat \<Rightarrow> bool" where
  "isSafeInteger v = (v = of_int \<lfloor>v\<rfloor> \<and> \<bar>v\<bar> \<le> 9007199254740991)"

function upgradeFrom :: "rat \<Rightarrow> jsval \<Rightarrow> jsval outcome" where
  "upgradeFrom loadedVersion settings =
     (if loadedVersion < CURRENT_SETTINGS_VERSION then
        (if isSafeInteger loadedVersion then
           andThen (case updateTable loadedVersion of
                      Some update \<Rightarrow> update settings
                    | None \<Rightarrow> Returns settings)
             (\<lambda>settings'. upgradeFrom (loadedVersion + 1) settings')
         else Unmodelled)
      else Returns settings)"
  by pat_completeness auto
termination
  by (relation "measure (\<lambda>(v, s). nat \<lceil>CURRENT_SETTINGS_VERSION - v\<rceil>)")
     (auto simp: CURRENT_SETTINGS_VERSION_def, linarith)

declare upgradeFrom.simps [simp del]

text \<open>
  \<open>settings.version || 0\<close> is compared with a number; when it is a truthy value that is
  not a number the comparison coerces it, which is not modelled.  The branch for a
  version above the current one only logs.
\<close>

definition updateSettings :: "string \<Rightarrow> jsval \<Rightarrow> jsval outcome" where
  "updateSettings notSet settings =
     andThen (own_key_count settings) (\<lambda>count.
       if count = 0 then Returns (defaultSettings notSet)
       else
         andThen (get_prop settings ''version'') (\<lambda>version.
           case (if truthy version then version else Num 0) of
             Num loadedVersion \<Rightarrow>
               andThen (if loadedVersion < CURRENT_SETTINGS_VERSION
                        then upgradeFrom loadedVersion settings
                        else Returns settings) (\<lambda>upgraded.
                 andThen (set_prop upgraded ''version'' (Num CURRENT_SETTINGS_VERSION))
                   (\<lambda>current. defaultsDeep current (defaultSettings notSet)))
           | _ \<Rightarrow> Unmodelled))"

section \<open>Loading the settings\<close>

text \<open>
  Modelled from the spec: \<open>clone\<close> (the module \<open>@pkg/utils/clone\<close>), which the spec
  calls a copy.  The model has values, not references, so a copy is the value itself.
\<close>

definition clone :: "jsval \<Rightarrow> jsval" where
  "clone v = v"

text \<open>
  lodash's \<open>isEqual\<close>: two plain objects are equal when they have as many own
  properties and every property of the first is an own property of the second with an
  equal value, whatever the order; two arrays when they have the same length and equal
  elements.
\<close>

fun isEqual :: "jsval \<Rightarrow> jsval \<Rightarrow> bool"
and isEqualProps :: "(string \<times> jsval) list \<Rightarrow> (string \<times> jsval) list \<Rightarrow> bool"
and isEqualElems :: "jsval list \<Rightarrow> jsval list \<Rightarrow> bool"
where
  "isEqual (Obj ps) other = (case other of Obj qs \<Rightarrow> length ps = length qs \<and> isEqualProps ps qs
                                         | _ \<Rightarrow> False)"
| "isEqual (Arr xs ps) other = (case other of Arr ys qs \<Rightarrow> isEqualElems xs ys | _ \<Rightarrow> False)"
| "isEqual Undefined other = (other = Undefined)"
| "isEqual Null other = (other = Null)"
| "isEqual (Bool b) other = (other = Bool b)"
| "isEqual (Num n) other = (other = Num n)"
| "isEqual (Str s) other = (other = Str s)"
| "isEqual (Host h) other = (other = Host h)"
| "isEqualProps [] qs = True"
| "isEqualProps ((k, v) # ps) qs =
     (case map_of qs k of Some w \<Rightarrow> isEqual v w \<and> isEqualProps ps qs | None \<Rightarrow> False)"
| "isEqualElems [] ys = (ys = [])"
| "isEqualElems (x # xs) ys =
     (case ys of y # ys' \<Rightarrow> isEqual x y \<and> isEqualElems xs ys' | [] \<Rightarrow> False)"

text \<open>
  What the process finds when \<open>load\<close> runs: the settings file (read and decoded as the
  profile files are: \<open>Missing\<close> is the error with code \<open>ENOENT\<close>, \<open>Unreadable\<close> one with
  another code, \<open>Malformed\<close> a file that \<open>JSON.parse\<close> rejects), \<open>os.platform()\<close>,
  \<open>os.totalmem()\<close> in bytes, whether \<open>process.env['APPIMAGE']\<close> is set, and what
  \<open>getProductionVersion()\<close> returns.
\<close>

record load_env =
  settingsFile :: artifact
  osPlatform :: platform
  totalmem :: int
  APPIMAGE :: bool
  productionVersion :: string

definition loadFromDisk :: "string \<Rightarrow> load_env \<Rightarrow> store \<Rightarrow> jsval outcome \<times> store" where
  "loadFromDisk notSet env st =
     (case settingsFile env of
        Missing \<Rightarrow> (Throws (FsError ''ENOENT''), st)
      | Unreadable \<Rightarrow> (Throws (FsError ''EACCES''), st)
      | Malformed \<Rightarrow> (Returns (defaultSettings notSet), save (defaultSettings notSet) st)
      | Parsed settings \<Rightarrow>
          (case andThen (updateSettings notSet (clone settings)) (\<lambda>cfg.
                  andThen (get_path cfg [''containerEngine'', ''name'']) (\<lambda>name.
                    if name \<notin> set [Str ContainerEngine_NONE, Str ContainerEngine_CONTAINERD,
                                    Str ContainerEngine_MOBY]
                    then andThen (in_child cfg ''containerEngine''
                                    (\<lambda>c. set_prop c ''name'' (Str ContainerEngine_CONTAINERD)))
                           (\<lambda>cfg'. Returns (cfg', True))
                    else Returns (cfg, \<not> isEqual cfg settings))) of
             Returns (cfg, changed) \<Rightarrow> (Returns cfg, if changed then save cfg st else st)
           | Throws err \<Rightarrow> (Throws err, st)
           | Unmodelled \<Rightarrow> (Unmodelled, st)))"

text \<open>
  \<open>Math.min(6, Math.round(totalMemoryInGB / 4.0))\<close> with
  \<open>totalMemoryInGB = os.totalmem() / 2 ** 30\<close>; \<open>Math.round\<close> rounds a half up.
\<close>

definition firstRunMemoryInGB :: "int \<Rightarrow> rat" where
  "firstRunMemoryInGB bytes = min 6 (of_int \<lfloor>of_int bytes / (2 ^ 30 :: rat) / 4 + 1 / 2\<rfloor>)"

definition disableUpdater :: "jsval \<Rightarrow> jsval outcome" where
  "disableUpdater settings =
     in_child settings ''application'' (\<lambda>application.
       in_child application ''updater'' (\<lambda>updater. set_prop updater ''enabled'' (Bool False)))"

text \<open>The body of the \<open>catch\<close> in \<open>load\<close>, up to the call of \<open>save\<close>.\<close>

definition freshSettings :: "string \<Rightarrow> load_env \<Rightarrow> error \<Rightarrow> jsval outcome" where
  "freshSettings notSet env err =
     andThen
       (if err = FsError ''ENOENT'' \<and> (osPlatform env = Darwin \<or> osPlatform env = Linux)
        then in_child (clone (defaultSettings notSet)) ''virtualMachine''
               (\<lambda>vm. set_prop vm ''memoryInGB'' (Num (firstRunMemoryInGB (totalmem env))))
        else Returns (clone (defaultSettings notSet))) (\<lambda>s1.
     andThen
       (if osPlatform env = Linux \<and> \<not> APPIMAGE env then disableUpdater s1 else Returns s1)
       (\<lambda>s2.
     if CHR ''-'' \<in> set (productionVersion env) \<or> CHR ''?'' \<in> set (productionVersion env)
     then disableUpdater s2 else Returns s2))"

text \<open>
  \<open>load\<close>: the \<open>catch\<close> assigns the copy of the defaults to the module's
  \<open>settings\<close> and sets \<open>_isFirstRun\<close> before it changes the copy, so both
  assignments stand whatever follows.
\<close>

definition load :: "string \<Rightarrow> load_env \<Rightarrow> store \<Rightarrow> jsval outcome \<times> store" where
  "load notSet env st =
     (case moduleSettings st of
        Some settings \<Rightarrow> (Returns settings, st)
      | None \<Rightarrow>
          (case loadFromDisk notSet env st of
             (Returns cfg, st') \<Rightarrow> (Returns cfg, st'\<lparr>moduleSettings := Some cfg\<rparr>)
           | (Unmodelled, st') \<Rightarrow> (Unmodelled, st')
           | (Throws err, st') \<Rightarrow>
               (let st1 = st'\<lparr>isFirstRun := (err = FsError ''ENOENT'' \<or> isFirstRun st'),
                             moduleSettings := Some (clone (defaultSettings notSet))\<rparr>
                in case freshSettings notSet env err of
                     Returns settings \<Rightarrow>
                       (Returns settings, save settings (st1\<lparr>moduleSettings := Some settings\<rparr>))
                   | Throws err' \<Rightarrow> (Throws err', st1)
                   | Unmodelled \<Rightarrow> (Unmodelled, st1))))"

definition firstRunDialogNeeded :: "store \<Rightarrow> bool" where
  "firstRunDialogNeeded st = isFirstRun st"

text \<open>The module's variables when the process starts.\<close>

definition initialStore :: store where
  "initialStore = \<lparr>isFirstRun = False, moduleSettings = None, saved = [], noModalDialogs = None\<rparr>"

section \<open>Auxiliary notions for the proofs\<close>

text \<open>
  An outcome that, when it is an exception, is one that the engine raises: the module's
  own \<open>throw\<close> sites and the file system's errors are excluded.
\<close>

fun engineOnly :: "'a outcome \<Rightarrow> bool" where
  "engineOnly (Throws e) = (e = TypeError \<or> e = RangeError)"
| "engineOnly m = True"

text \<open>
  Whether a run of the loop of \<open>updateFromCommandLine\<close> that came to its end consumed a
  token as one of its own: the loop clears \<open>processingExternalArguments\<close> when it
  recognises \<open>--no-modal-dialogs\<close> or a setting, and at no other place.
\<close>

definition tokenConsumed :: "jsval \<Rightarrow> string list \<Rightarrow> store \<Rightarrow> bool" where
  "tokenConsumed cfg commandLineArgs st =
     (fst (processArgs commandLineArgs True cfg st) = Returns False)"

section \<open>Example inputs\<close>

text \<open>
  A settings file at the current version whose container engine is
  \<open>ContainerEngine.NONE\<close>, and a Linux host with 16 GiB of memory running a release
  build from a package.
\<close>

definition engineNoneFile :: jsval where
  "engineNoneFile =
     Obj [(''version'', Num 5),
          (''containerEngine'', Obj [(''name'', Str ContainerEngine_NONE)])]"

definition exampleEnv :: "artifact \<Rightarrow> load_env" where
  "exampleEnv file =
     \<lparr>settingsFile = file, osPlatform = Linux, totalmem = 17179869184, APPIMAGE = False,
      productionVersion = ''1.9.0''\<rparr>"

text \<open>
  Two artifacts for the examples: a locked profile that turns Kubernetes off, and a
  defaults profile that moves its port.  Both conform to the schema.
\<close>

definition lockedExample :: jsval where
  "lockedExample = Obj [(''kubernetes'', Obj [(''enabled'', Bool False)])]"

definition defaultsExample :: jsval where
  "defaultsExample = Obj [(''kubernetes'', Obj [(''port'', Num 6444)])]"

text \<open>
  Objects and arrays, their named properties, and the keys on which an object and an
  array answer alike: not an index, not \<open>length\<close>, and not inherited.
\<close>

fun container :: "jsval \<Rightarrow> bool" where
  "container (Obj ps) = True"
| "container (Arr xs ps) = True"
| "container v = False"

fun named :: "jsval \<Rightarrow> (string \<times> jsval) list" where
  "named (Obj ps) = ps"
| "named (Arr xs ps) = ps"
| "named v = []"

fun with_named :: "jsval \<Rightarrow> (string \<times> jsval) list \<Rightarrow> jsval" where
  "with_named (Obj ps) qs = Obj qs"
| "with_named (Arr xs ps) qs = Arr xs qs"
| "with_named v qs = v"

definition propOf :: "(string \<times> jsval) list \<Rightarrow> string \<Rightarrow> jsval" where
  "propOf ps k = (case map_of ps k of Some v \<Rightarrow> v | None \<Rightarrow> Undefined)"

definition plainKey :: "string \<Rightarrow> bool" where
  "plainKey k = (array_index k = None \<and> k \<noteq> ''length''
                 \<and> k \<notin> set (arrayPrototypeNames @ objectPrototypeNames))"

text \<open>
  A source that the merge handles within the model: its keys are plain and distinct,
  its arrays are empty, and no host object stands where an object is merged.
\<close>

fun wfSchema :: "jsval \<Rightarrow> bool"
and wfSchemaKeys :: "(string \<times> jsval) list \<Rightarrow> bool"
where
  "wfSchema (Obj qs) = wfSchemaKeys qs"
| "wfSchema (Arr ys qs) = (ys = [] \<and> wfSchemaKeys qs)"
| "wfSchema (Host h) = False"
| "wfSchema (Str s) = (s = [])"
| "wfSchema v = True"
| "wfSchemaKeys [] = True"
| "wfSchemaKeys ((k, sv) # rest) =
     (plainKey k \<and> map_of rest k = None \<and> (if isObject sv then wfSchema sv else True)
      \<and> wfSchemaKeys rest)"

text \<open>
  \<open>coveredBy object source\<close>: \<open>object\<close> already holds, for every key of the source,
  what the merge would put there, and so on inside the objects both have.
\<close>

fun coveredBy :: "jsval \<Rightarrow> jsval \<Rightarrow> bool"
and coveredKeys :: "jsval \<Rightarrow> (string \<times> jsval) list \<Rightarrow> bool"
where
  "coveredBy object (Obj qs) = coveredKeys object qs"
| "coveredBy object (Arr ys qs) = (ys = [] \<and> coveredKeys object qs)"
| "coveredBy object (Host h) = False"
| "coveredBy object (Str s) = (s = [])"
| "coveredBy object v = True"
| "coveredKeys object [] = True"
| "coveredKeys object ((k, sv) # rest) =
     (container object
      \<and> (if isObject sv
         then propOf (named object) k \<noteq> Undefined
              \<and> (if isObject (propOf (named object) k)
                 then coveredBy (propOf (named object) k) sv else True)
         else propOf (named object) k \<noteq> Undefined
              \<or> (sv = Undefined \<and> map_of (named object) k \<noteq> None))
      \<and> coveredKeys object rest)"

text \<open>
  Data in which no host object occurs: what \<open>JSON.parse\<close> returns, and what the
  migration steps make of it.
\<close>

fun hostFree :: "jsval \<Rightarrow> bool"
and hostFreeProps :: "(string \<times> jsval) list \<Rightarrow> bool"
and hostFreeElems :: "jsval list \<Rightarrow> bool"
where
  "hostFree (Host h) = False"
| "hostFree (Obj ps) = hostFreeProps ps"
| "hostFree (Arr xs ps) = (hostFreeElems xs \<and> hostFreeProps ps)"
| "hostFree v = True"
| "hostFreeProps [] = True"
| "hostFreeProps ((k, v) # ps) = (hostFree v \<and> hostFreeProps ps)"
| "hostFreeElems [] = True"
| "hostFreeElems (x # xs) = (hostFree x \<and> hostFreeElems xs)"

text \<open>
  The shape the version steps dereference: a plain object in which \<open>kubernetes\<close> is a
  plain object, \<open>kubernetes.experimental\<close> is neither \<open>undefined\<close> nor \<open>null\<close>, and
  \<open>containerEngine\<close> is an object or an array.
\<close>

fun plainObject :: "jsval \<Rightarrow> bool" where
  "plainObject (Obj ps) = True"
| "plainObject v = False"

definition migratable :: "jsval \<Rightarrow> bool" where
  "migratable s =
     (plainObject s \<and> hostFree s
      \<and> plainObject (propOf (named s) ''kubernetes'')
      \<and> propOf (named (propOf (named s) ''kubernetes'')) ''experimental'' \<noteq> Undefined
      \<and> propOf (named (propOf (named s) ''kubernetes'')) ''experimental'' \<noteq> Null
      \<and> container (propOf (named s) ''containerEngine''))"

text \<open>The outcome is a result, and the result satisfies \<open>P\<close>.\<close>

fun returnsWith :: "('a \<Rightarrow> bool) \<Rightarrow> 'a outcome \<Rightarrow> bool" where
  "returnsWith P (Returns x) = P x"
| "returnsWith P m = False"

definition keepsKubernetes :: "jsval \<Rightarrow> bool" where
  "keepsKubernetes s =
     (plainObject s \<and> hostFree s \<and> plainObject (propOf (named s) ''kubernetes''))"

definition plainHostFree :: "jsval \<Rightarrow> bool" where
  "plainHostFree s = (plainObject s \<and> hostFree s)"

text \<open>
  A settings object stored at version 4: the engine is \<open>moby\<close> and \<open>suppressSudo\<close> is
  set, both still under \<open>kubernetes\<close>.
\<close>

definition version4Example :: jsval where
  "version4Example =
     Obj [(''version'', Num 4),
          (''kubernetes'',
             Obj [(''containerEngine'', Str ''moby''),
                  (''suppressSudo'', Bool True),
                  (''experimental'', Obj [(''socketVMNet'', Bool False)])]),
          (''containerEngine'', Obj [(''imageAllowList'', Obj [(''enabled'', Bool False)])])]"

section \<open>Which exceptions the migration can raise\<close>

text \<open>
  Property reads, writes and deletions, the merge and the migration steps raise nothing
  but the engine's \<open>TypeError\<close> and \<open>RangeError\<close>; in particular nothing that carries
  a \<open>code\<close>.
\<close>

lemma engineOnly_andThen:
  "engineOnly m \<Longrightarrow> (\<And>x. m = Returns x \<Longrightarrow> engineOnly (f x)) \<Longrightarrow> engineOnly (andThen m f)"
  by (cases m) auto

lemma engineOnly_if:
  "(c \<Longrightarrow> engineOnly a) \<Longrightarrow> (\<not> c \<Longrightarrow> engineOnly b) \<Longrightarrow> engineOnly (if c then a else b)"
  by simp

lemma engineOnly_get_prop [simp]: "engineOnly (get_prop v k)"
  by (cases v) auto

lemma engineOnly_has_prop [simp]: "engineOnly (has_prop k v)"
  by (cases v) auto

lemma engineOnly_set_prop [simp]: "engineOnly (set_prop v k x)"
  by (cases v) (auto split: option.splits jsval.splits)

lemma engineOnly_delete_prop [simp]: "engineOnly (delete_prop v k)"
  by (cases v) (auto split: option.splits)

lemma engineOnly_own_key_count [simp]: "engineOnly (own_key_count v)"
  by (cases v) auto

lemma engineOnly_in_child:
  "(\<And>c. engineOnly (f c)) \<Longrightarrow> engineOnly (in_child v k f)"
  unfolding in_child_def by (intro engineOnly_andThen engineOnly_if) auto

lemma engineOnly_get_path [simp]: "engineOnly (get_path v ks)"
  by (induction ks arbitrary: v) (auto intro!: engineOnly_andThen)

lemma engineOnly_delete_each [simp]: "engineOnly (delete_each v ks)"
  by (induction ks arbitrary: v) (auto intro!: engineOnly_andThen)

lemma engineOnly_delete_each_in [simp]: "engineOnly (delete_each_in v c ks)"
  by (induction ks arbitrary: v) (auto intro!: engineOnly_andThen engineOnly_in_child)

lemma engineOnly_safeGet [simp]: "engineOnly (safeGet v k)"
  by (auto simp: safeGet_def intro!: engineOnly_andThen)

lemma engineOnly_baseMerge:
  "engineOnly (baseMerge object source)"
  "engineOnly (baseMergeKeys object qs)"
proof (induction object source and object qs rule: baseMerge_baseMergeKeys.induct)
  case (10 object key srcValue rest)
  show ?case
  proof (subst baseMergeKeys.simps, intro engineOnly_andThen)
    show "engineOnly (safeGet object key)" by simp
  next
    fix objValue assume g: "safeGet object key = Returns objValue"
    show "engineOnly
           (if isObject srcValue then
              (if objValue = Undefined then
                 andThen (baseMerge (emptyLike srcValue) srcValue) (\<lambda>newValue.
                   set_prop object key newValue)
               else if isObject objValue then
                 andThen (baseMerge objValue srcValue) (\<lambda>merged. set_prop object key merged)
               else Returns object)
            else
              (if objValue = Undefined then
                 (if srcValue = Undefined then
                    andThen (has_prop key object) (\<lambda>found.
                      if found then Returns object else set_prop object key Undefined)
                  else set_prop object key srcValue)
               else Returns object))"
      using "10.IH"(1)[OF g] "10.IH"(2)[OF g] by (auto intro!: engineOnly_andThen)
  next
    fix objValue object'
    assume g: "safeGet object key = Returns objValue"
      and s: "(if isObject srcValue then
              (if objValue = Undefined then
                 andThen (baseMerge (emptyLike srcValue) srcValue) (\<lambda>newValue.
                   set_prop object key newValue)
               else if isObject objValue then
                 andThen (baseMerge objValue srcValue) (\<lambda>merged. set_prop object key merged)
               else Returns object)
            else
              (if objValue = Undefined then
                 (if srcValue = Undefined then
                    andThen (has_prop key object) (\<lambda>found.
                      if found then Returns object else set_prop object key Undefined)
                  else set_prop object key srcValue)
               else Returns object)) = Returns object'"
    show "engineOnly (baseMergeKeys object' rest)" using "10.IH"(3)[OF g s] .
  qed
qed auto

lemma engineOnly_defaultsDeep [simp]: "engineOnly (defaultsDeep object source)"
  by (auto simp: defaultsDeep_def engineOnly_baseMerge split: jsval.splits)

lemma engineOnly_updateTable_1 [simp]: "engineOnly (updateTable_1 s)"
  unfolding updateTable_1_def
  by (intro engineOnly_andThen engineOnly_if engineOnly_in_child) auto

lemma engineOnly_updateTable_4 [simp]: "engineOnly (updateTable_4 s)"
  unfolding updateTable_4_def
  by (intro engineOnly_andThen engineOnly_in_child) (simp_all del: get_path.simps delete_each.simps delete_each_in.simps)

lemma engineOnly_updateTable:
  "updateTable v = Some update \<Longrightarrow> engineOnly (update s)"
  by (auto simp: updateTable_def split: if_splits)

lemma engineOnly_upgradeFrom [simp]: "engineOnly (upgradeFrom v s)"
proof (induction v s rule: upgradeFrom.induct)
  case (1 v s)
  show ?case
  proof (cases "v < CURRENT_SETTINGS_VERSION \<and> isSafeInteger v")
    case True
    have "engineOnly
            (andThen (case updateTable v of Some update \<Rightarrow> update s | None \<Rightarrow> Returns s)
               (\<lambda>settings'. upgradeFrom (v + 1) settings'))"
    proof (rule engineOnly_andThen)
      show "engineOnly (case updateTable v of Some update \<Rightarrow> update s | None \<Rightarrow> Returns s)"
        by (auto split: option.splits intro: engineOnly_updateTable)
    next
      fix x
      assume "(case updateTable v of Some update \<Rightarrow> update s | None \<Rightarrow> Returns s) = Returns x"
      then show "engineOnly (upgradeFrom (v + 1) x)"
        using "1.IH" True by blast
    qed
    with True show ?thesis by (subst upgradeFrom.simps) simp
  next
    case False
    then show ?thesis by (subst upgradeFrom.simps) auto
  qed
qed

lemma engineOnly_updateSettings [simp]: "engineOnly (updateSettings notSet s)"
  unfolding updateSettings_def
  by (auto intro!: engineOnly_andThen split: jsval.splits)

lemma loadFromDisk_parsed_throws:
  assumes "settingsFile env = Parsed v" and "loadFromDisk notSet env st = (Throws e, st')"
  shows "e = TypeError \<or> e = RangeError"
proof -
  let ?m = "andThen (updateSettings notSet (clone v)) (\<lambda>cfg.
                  andThen (get_path cfg [''containerEngine'', ''name'']) (\<lambda>name.
                    if name \<notin> set [Str ContainerEngine_NONE, Str ContainerEngine_CONTAINERD,
                                    Str ContainerEngine_MOBY]
                    then andThen (in_child cfg ''containerEngine''
                                    (\<lambda>c. set_prop c ''name'' (Str ContainerEngine_CONTAINERD)))
                           (\<lambda>cfg'. Returns (cfg', True))
                    else Returns (cfg, \<not> isEqual cfg v)))"
  have "engineOnly ?m"
    by (intro engineOnly_andThen engineOnly_if engineOnly_in_child) (simp_all del: get_path.simps delete_each.simps delete_each_in.simps)
  moreover have "?m = Throws e"
    using assms by (auto simp: loadFromDisk_def split: outcome.splits prod.splits)
  ultimately show ?thesis by simp
qed

section \<open>Properties of the merge\<close>

lemma plainKey_not_proto: "plainKey k \<Longrightarrow> k \<noteq> ''__proto__'' \<and> k \<noteq> ''constructor'' \<and> k \<notin> set objectPrototypeNames"
  by (auto simp: plainKey_def objectPrototypeNames_def)

lemma get_prop_plain:
  "container object \<Longrightarrow> plainKey k \<Longrightarrow> get_prop object k = Returns (propOf (named object) k)"
  by (cases object) (auto simp: plainKey_def propOf_def split: option.splits)

lemma safeGet_plain:
  "container object \<Longrightarrow> plainKey k \<Longrightarrow> safeGet object k = Returns (propOf (named object) k)"
  using plainKey_not_proto [of k] by (simp add: safeGet_def get_prop_plain)

lemma has_prop_plain:
  "container object \<Longrightarrow> plainKey k \<Longrightarrow> has_prop k object = Returns (map_of (named object) k \<noteq> None)"
  by (cases object) (auto simp: plainKey_def split: option.splits)

lemma set_prop_plain:
  "container object \<Longrightarrow> plainKey k \<Longrightarrow>
   set_prop object k x = Returns (with_named object (AList.update k x (named object)))"
  using plainKey_not_proto [of k] by (cases object) (auto simp: plainKey_def)

lemma container_with_named [simp]: "container (with_named object qs) = container object"
  by (cases object) auto

lemma named_with_named [simp]: "container object \<Longrightarrow> named (with_named object qs) = qs"
  by (cases object) auto

lemma with_named_named [simp]: "with_named object (named object) = object"
  by (cases object) auto

lemma propOf_update: "propOf (AList.update k x ps) k' = (if k' = k then x else propOf ps k')"
  by (simp add: propOf_def update_conv')

lemma update_propOf_triv: "propOf ps k \<noteq> Undefined \<Longrightarrow> AList.update k (propOf ps k) ps = ps"
  by (auto simp: propOf_def update_triv split: option.splits)

lemma andThen_returns:
  "andThen m f = Returns y \<Longrightarrow> (\<And>x. m = Returns x \<Longrightarrow> f x = Returns y \<Longrightarrow> P) \<Longrightarrow> P"
  by (cases m) auto

lemma covered_fixpoint:
  "wfSchema source \<Longrightarrow> coveredBy object source \<Longrightarrow> baseMerge object source = Returns object"
  "wfSchemaKeys qs \<Longrightarrow> coveredKeys object qs \<Longrightarrow> baseMergeKeys object qs = Returns object"
proof (induction object source and object qs rule: baseMerge_baseMergeKeys.induct)
  case (10 object key srcValue rest)
  let ?ov = "propOf (named object) key"
  from "10.prems" have c: "container object" and pk: "plainKey key"
    and wsv: "isObject srcValue \<Longrightarrow> wfSchema srcValue" and wrest: "wfSchemaKeys rest"
    and crest: "coveredKeys object rest"
    by simp_all
  have sg: "safeGet object key = Returns ?ov"
    using c pk by (rule safeGet_plain)
  have step: "(if isObject srcValue then
            (if ?ov = Undefined then
               andThen (baseMerge (emptyLike srcValue) srcValue) (\<lambda>newValue.
                 set_prop object key newValue)
             else if isObject ?ov then
               andThen (baseMerge ?ov srcValue) (\<lambda>merged. set_prop object key merged)
             else Returns object)
          else
            (if ?ov = Undefined then
               (if srcValue = Undefined then
                  andThen (has_prop key object) (\<lambda>found.
                    if found then Returns object else set_prop object key Undefined)
                else set_prop object key srcValue)
             else Returns object)) = Returns object"
  proof (cases "isObject srcValue")
    case True
    with "10.prems" have ne: "?ov \<noteq> Undefined"
      and cov: "isObject ?ov \<Longrightarrow> coveredBy ?ov srcValue"
      by (simp_all split: if_splits)
    show ?thesis
    proof (cases "isObject ?ov")
      case io: True
      have "baseMerge ?ov srcValue = Returns ?ov"
        using "10.IH"(2) [OF sg True ne io wsv [OF True] cov [OF io]] .
      then show ?thesis
        using True ne io c pk by (simp add: set_prop_plain update_propOf_triv)
    next
      case False
      then show ?thesis using True ne by simp
    qed
  next
    case False
    with "10.prems" have "?ov \<noteq> Undefined \<or> (srcValue = Undefined \<and> map_of (named object) key \<noteq> None)"
      by simp
    then show ?thesis
      using False c pk by (auto simp: has_prop_plain)
  qed
  show ?case
    using sg step "10.IH"(3) [OF sg step wrest crest] by simp
qed (auto split: if_splits)


lemma andThen_Returns [simp]: "andThen m Returns = m"
  by (cases m) auto

lemma andThen_assoc: "andThen (andThen m f) g = andThen m (\<lambda>x. andThen (f x) g)"
  by (cases m) auto

lemma baseMergeKeys_Cons:
  "baseMergeKeys object (q # rest)
     = andThen (baseMergeKeys object [q]) (\<lambda>object'. baseMergeKeys object' rest)"
  by (cases q) (simp add: andThen_assoc)

lemma isObject_cases: "isObject v \<Longrightarrow> container v \<or> (\<exists>h. v = Host h)"
  by (cases v) auto

lemma container_isObject: "container v \<Longrightarrow> isObject v"
  by (cases v) auto

lemma baseMerge_Host:
  "baseMerge (Host h) source = Returns object' \<Longrightarrow> object' = Host h"
  "baseMergeKeys (Host h) qs = Returns object' \<Longrightarrow> object' = Host h"
proof -
  show k: "baseMergeKeys (Host h) qs = Returns object' \<Longrightarrow> object' = Host h" for qs
    by (cases qs) (auto simp: safeGet_def split: if_splits elim!: andThen_returns)
  show "baseMerge (Host h) source = Returns object' \<Longrightarrow> object' = Host h"
    by (cases source) (auto dest: k split: if_splits)
qed

text \<open>One key of the source changes at most the property of that name.\<close>

lemma baseMergeKeys_single_shape:
  assumes "container object" and "plainKey key"
    and "baseMergeKeys object [(key, srcValue)] = Returns object'"
  shows "object' = object \<or> (\<exists>x. object' = with_named object (AList.update key x (named object)))"
  using assms
  by (auto simp: safeGet_plain set_prop_plain has_prop_plain split: if_splits
      elim!: andThen_returns)


lemma with_named_twice [simp]: "with_named (with_named object ps) qs = with_named object qs"
  by (cases object) auto

lemma baseMergeKeys_single_frame:
  assumes "container object" and "plainKey key"
    and "baseMergeKeys object [(key, srcValue)] = Returns object'"
  shows "container object'" and "with_named object (named object') = object'"
    and "k \<noteq> key \<Longrightarrow> map_of (named object') k = map_of (named object) k"
  using baseMergeKeys_single_shape [OF assms] assms(1)
  by (auto simp: update_conv')

lemma baseMergeKeys_ConsE:
  assumes "baseMergeKeys object ((key, srcValue) # rest) = Returns object'"
  obtains o1 where "baseMergeKeys object [(key, srcValue)] = Returns o1"
    and "baseMergeKeys o1 rest = Returns object'"
proof -
  from assms have "andThen (baseMergeKeys object [(key, srcValue)])
                     (\<lambda>o1. baseMergeKeys o1 rest) = Returns object'"
    using baseMergeKeys_Cons [of object "(key, srcValue)" rest] by simp
  then show thesis
    by (rule andThen_returns) (rule that)
qed

lemma baseMergeKeys_frame:
  "container object \<Longrightarrow> wfSchemaKeys qs \<Longrightarrow> baseMergeKeys object qs = Returns object' \<Longrightarrow>
   container object' \<and> with_named object (named object') = object'
   \<and> (map_of qs k = None \<longrightarrow> map_of (named object') k = map_of (named object) k)"
proof (induction qs arbitrary: object)
  case Nil
  then show ?case by simp
next
  case (Cons q rest)
  obtain key srcValue where q: "q = (key, srcValue)" by (cases q)
  from Cons.prems(3) obtain o1 where s: "baseMergeKeys object [(key, srcValue)] = Returns o1"
    and r: "baseMergeKeys o1 rest = Returns object'"
    unfolding q by (rule baseMergeKeys_ConsE)
  from Cons.prems(2) have pk: "plainKey key" and wr: "wfSchemaKeys rest"
    by (simp_all add: q)
  note f = baseMergeKeys_single_frame [OF Cons.prems(1) pk s]
  from Cons.IH [OF f(1) wr r]
  have c: "container object'" and w: "with_named o1 (named object') = object'"
    and m: "map_of rest k = None \<longrightarrow> map_of (named object') k = map_of (named o1) k"
    by simp_all
  have "with_named object (named object') = object'"
    using w f(2) by (metis with_named_twice)
  moreover have "map_of (q # rest) k = None \<longrightarrow> map_of (named object') k = map_of (named object) k"
    using m f(3) [of k] by (auto simp: q split: if_splits)
  ultimately show ?case using c by simp
qed

text \<open>A property that holds a scalar is left alone.\<close>

lemma baseMergeKeys_single_keeps:
  assumes "container object" and "plainKey key"
    and "baseMergeKeys object [(key, srcValue)] = Returns object'"
    and "map_of (named object) k = Some v" and "v \<noteq> Undefined" and "\<not> isObject v"
  shows "map_of (named object') k = Some v"
proof (cases "k = key")
  case True
  with assms have "propOf (named object) key = v" by (simp add: propOf_def)
  with assms True show ?thesis
    by (auto simp: safeGet_plain split: if_splits)
next
  case False
  with baseMergeKeys_single_frame(3) [OF assms(1-3)] assms(4) show ?thesis by simp
qed

lemma baseMergeKeys_keeps:
  "container object \<Longrightarrow> wfSchemaKeys qs \<Longrightarrow> baseMergeKeys object qs = Returns object' \<Longrightarrow>
   map_of (named object) k = Some v \<Longrightarrow> v \<noteq> Undefined \<Longrightarrow> \<not> isObject v \<Longrightarrow>
   map_of (named object') k = Some v"
proof (induction qs arbitrary: object)
  case Nil
  then show ?case by simp
next
  case (Cons q rest)
  obtain key srcValue where q: "q = (key, srcValue)" by (cases q)
  from Cons.prems(3) obtain o1 where s: "baseMergeKeys object [(key, srcValue)] = Returns o1"
    and r: "baseMergeKeys o1 rest = Returns object'"
    unfolding q by (rule baseMergeKeys_ConsE)
  from Cons.prems(2) have pk: "plainKey key" and wr: "wfSchemaKeys rest"
    by (simp_all add: q)
  have c1: "container o1"
    using baseMergeKeys_single_frame(1) [OF Cons.prems(1) pk s] .
  have k1: "map_of (named o1) k = Some v"
    using baseMergeKeys_single_keeps [OF Cons.prems(1) pk s Cons.prems(4-6)] .
  show ?case
    using Cons.IH [OF c1 wr r k1 Cons.prems(5,6)] .
qed


lemma baseMergeKeys_Host_Cons:
  "baseMergeKeys (Host h) (q # rest) = Returns x \<Longrightarrow> False"
  by (cases q) (auto simp: safeGet_def split: if_splits elim!: andThen_returns)

lemma isObject_not_Undefined: "isObject v \<Longrightarrow> v \<noteq> Undefined"
  by (cases v) auto

lemma isObject_emptyLike [simp]: "isObject (emptyLike v)"
  by (simp add: emptyLike_def)

text \<open>What the merge returns has everything the source would supply.\<close>

lemma merge_covers:
  "wfSchema source \<Longrightarrow> isObject object \<Longrightarrow> baseMerge object source = Returns object' \<Longrightarrow>
   coveredBy object' source \<and> isObject object'"
  "wfSchemaKeys qs \<Longrightarrow> isObject object \<Longrightarrow> baseMergeKeys object qs = Returns object' \<Longrightarrow>
   coveredKeys object' qs \<and> isObject object'"
proof (induction object source and object qs arbitrary: object' and object'
    rule: baseMerge_baseMergeKeys.induct)
  case (10 object key srcValue rest)
  let ?ov = "propOf (named object) key"
  let ?step = "(if isObject srcValue then
            (if ?ov = Undefined then
               andThen (baseMerge (emptyLike srcValue) srcValue) (\<lambda>newValue.
                 set_prop object key newValue)
             else if isObject ?ov then
               andThen (baseMerge ?ov srcValue) (\<lambda>merged. set_prop object key merged)
             else Returns object)
          else
            (if ?ov = Undefined then
               (if srcValue = Undefined then
                  andThen (has_prop key object) (\<lambda>found.
                    if found then Returns object else set_prop object key Undefined)
                else set_prop object key srcValue)
             else Returns object))"
  have c: "container object"
    using "10.prems"(2,3) isObject_cases [of object] baseMergeKeys_Host_Cons by blast
  from "10.prems"(1) have pk: "plainKey key"
    and wsv: "isObject srcValue \<Longrightarrow> wfSchema srcValue"
    and wrest: "wfSchemaKeys rest" and nk: "map_of rest key = None"
    by simp_all
  have sg: "safeGet object key = Returns ?ov"
    using c pk by (rule safeGet_plain)
  from "10.prems"(3) sg obtain o1 where step: "?step = Returns o1"
    and r: "baseMergeKeys o1 rest = Returns object'"
    by (auto elim!: andThen_returns)
  have single: "baseMergeKeys object [(key, srcValue)] = Returns o1"
    using sg step by simp
  have c1: "container o1"
    using baseMergeKeys_single_frame(1) [OF c pk single] .
  have cov1: "if isObject srcValue
         then propOf (named o1) key \<noteq> Undefined
              \<and> (if isObject (propOf (named o1) key)
                 then coveredBy (propOf (named o1) key) srcValue else True)
         else propOf (named o1) key \<noteq> Undefined
              \<or> (srcValue = Undefined \<and> map_of (named o1) key \<noteq> None)"
  proof (cases "isObject srcValue")
    case True
    show ?thesis
    proof (cases "?ov = Undefined")
      case u: True
      from step True u obtain nv where m: "baseMerge (emptyLike srcValue) srcValue = Returns nv"
        and st: "set_prop object key nv = Returns o1"
        by (auto elim!: andThen_returns)
      from "10.IH"(1) [OF sg True u wsv [OF True] _ m] have "coveredBy nv srcValue" and "isObject nv"
        by simp_all
      moreover from st c pk have "propOf (named o1) key = nv"
        by (auto simp: set_prop_plain propOf_update)
      ultimately show ?thesis using True by (simp add: isObject_not_Undefined)
    next
      case nu: False
      show ?thesis
      proof (cases "isObject ?ov")
        case io: True
        from step True nu io obtain m where m: "baseMerge ?ov srcValue = Returns m"
          and st: "set_prop object key m = Returns o1"
          by (auto elim!: andThen_returns)
        from "10.IH"(2) [OF sg True nu io wsv [OF True] io m] have "coveredBy m srcValue" and "isObject m"
          by simp_all
        moreover from st c pk have "propOf (named o1) key = m"
          by (auto simp: set_prop_plain propOf_update)
        ultimately show ?thesis using True by (simp add: isObject_not_Undefined)
      next
        case False
        with step True nu show ?thesis by simp
      qed
    qed
  next
    case False
    with step c pk show ?thesis
      by (auto simp: has_prop_plain set_prop_plain propOf_update update_conv' split: if_splits)
  qed
  have fr: "map_of (named object') key = map_of (named o1) key"
    and c': "container object'"
    using baseMergeKeys_frame [OF c1 wrest r, of key] nk by simp_all
  then have pr: "propOf (named object') key = propOf (named o1) key"
    by (simp add: propOf_def)
  from "10.IH"(3) [OF sg step wrest container_isObject [OF c1] r]
  have "coveredKeys object' rest" by simp
  with cov1 fr pr c' show ?case
    by (auto simp: container_isObject split: if_splits)
qed (auto split: if_splits)


lemma plainKey_version: "plainKey ''version''"
  by code_simp

lemma wfSchema_defaultSettings: "wfSchema (defaultSettings notSet)"
  by code_simp

lemma coveredBy_defaultSettings: "coveredBy (defaultSettings notSet) (defaultSettings notSet)"
  by code_simp

lemma version_defaultSettings:
  "container (defaultSettings notSet)"
  "map_of (named (defaultSettings notSet)) ''version'' = Some (Num CURRENT_SETTINGS_VERSION)"
  by (simp_all add: defaultSettings_def)

lemma set_prop_returns:
  assumes "set_prop v k x = Returns v'" and "plainKey k"
  shows "container v" and "v' = with_named v (AList.update k x (named v))"
proof -
  show c: "container v"
    using assms(1) by (cases v) auto
  show "v' = with_named v (AList.update k x (named v))"
    using assms set_prop_plain [OF c assms(2), of x] by simp
qed

lemma own_key_count_container:
  "container v \<Longrightarrow> map_of (named v) k = Some x \<Longrightarrow> \<exists>n. own_key_count v = Returns n \<and> n \<noteq> 0"
  by (cases v) auto

text \<open>A settings object at the current version that lacks nothing is left as it is.\<close>

lemma updateSettings_fixpoint:
  assumes c: "container s"
    and v: "map_of (named s) ''version'' = Some (Num CURRENT_SETTINGS_VERSION)"
    and cov: "coveredBy s (defaultSettings notSet)"
  shows "updateSettings notSet s = Returns s"
proof -
  obtain n where n: "own_key_count s = Returns n" "n \<noteq> 0"
    using own_key_count_container [OF c v] by blast
  have g: "get_prop s ''version'' = Returns (Num CURRENT_SETTINGS_VERSION)"
    using get_prop_plain [OF c plainKey_version] v by (simp add: propOf_def)
  have st: "set_prop s ''version'' (Num CURRENT_SETTINGS_VERSION) = Returns s"
    using set_prop_plain [OF c plainKey_version] v by (simp add: update_triv)
  have d: "defaultsDeep s (defaultSettings notSet) = Returns s"
    using c covered_fixpoint(1) [OF wfSchema_defaultSettings cov]
    by (cases s) (simp_all add: defaultsDeep_def)
  show ?thesis
    using n g st d by (simp add: updateSettings_def CURRENT_SETTINGS_VERSION_def)
qed

lemma updateSettings_result:
  assumes "updateSettings notSet r = Returns s"
  shows "container s \<and> map_of (named s) ''version'' = Some (Num CURRENT_SETTINGS_VERSION)
         \<and> coveredBy s (defaultSettings notSet)"
proof (cases "own_key_count r = Returns 0")
  case True
  with assms have "s = defaultSettings notSet"
    by (simp add: updateSettings_def)
  then show ?thesis
    using version_defaultSettings coveredBy_defaultSettings by simp
next
  case False
  with assms obtain u current where
    st: "set_prop u ''version'' (Num CURRENT_SETTINGS_VERSION) = Returns current"
    and d: "defaultsDeep current (defaultSettings notSet) = Returns s"
    by (auto simp: updateSettings_def elim!: andThen_returns split: if_splits jsval.splits)
  note sr = set_prop_returns [OF st plainKey_version]
  have cc: "container current" and vc: "map_of (named current) ''version'' = Some (Num CURRENT_SETTINGS_VERSION)"
    using sr by (simp_all add: update_conv')
  have m: "baseMerge current (defaultSettings notSet) = Returns s"
    using d cc by (cases current) (simp_all add: defaultsDeep_def)
  obtain qs where qs: "defaultSettings notSet = Obj qs"
    by (simp add: defaultSettings_def)
  have wq: "wfSchemaKeys qs"
    using wfSchema_defaultSettings [of notSet] by (simp add: qs)
  have mk: "baseMergeKeys current qs = Returns s"
    using m by (simp add: qs)
  have "container s"
    using baseMergeKeys_frame [OF cc wq mk] by simp
  moreover have "map_of (named s) ''version'' = Some (Num CURRENT_SETTINGS_VERSION)"
    using baseMergeKeys_keeps [OF cc wq mk vc] by simp
  moreover have "coveredBy s (defaultSettings notSet)"
    using merge_covers(1) [OF wfSchema_defaultSettings container_isObject [OF cc] m] by simp
  ultimately show ?thesis by simp
qed

section \<open>Properties of the version steps\<close>

lemma hostFreeProps_map_of: "hostFreeProps ps \<Longrightarrow> map_of ps k = Some v \<Longrightarrow> hostFree v"
  by (induction ps) (auto split: if_splits)

lemma hostFree_propOf: "hostFreeProps ps \<Longrightarrow> hostFree (propOf ps k)"
  by (auto simp: propOf_def dest: hostFreeProps_map_of split: option.splits)

lemma hostFreeProps_update:
  "hostFreeProps ps \<Longrightarrow> hostFree v \<Longrightarrow> hostFreeProps (AList.update k v ps)"
  by (induction ps) auto

lemma hostFreeProps_delete: "hostFreeProps ps \<Longrightarrow> hostFreeProps (AList.delete k ps)"
  by (induction ps) auto

lemma hostFree_named: "hostFree object \<Longrightarrow> hostFreeProps (named object)"
  by (cases object) auto

lemma hostFree_with_named:
  "hostFree object \<Longrightarrow> hostFreeProps qs \<Longrightarrow> hostFree (with_named object qs)"
  by (cases object) auto

lemma hostFree_isObject_container: "hostFree v \<Longrightarrow> isObject v \<Longrightarrow> container v"
  by (cases v) auto

lemma hostFree_emptyLike [simp]: "hostFree (emptyLike v)" "container (emptyLike v)"
  by (simp_all add: emptyLike_def)

lemma hostFree_scalar: "\<not> isObject v \<Longrightarrow> hostFree v"
  by (cases v) auto

text \<open>On data without host objects the merge over a well-formed source returns.\<close>

lemma merge_returns:
  "wfSchema source \<Longrightarrow> container object \<Longrightarrow> hostFree object \<Longrightarrow>
   \<exists>object'. baseMerge object source = Returns object' \<and> hostFree object'"
  "wfSchemaKeys qs \<Longrightarrow> container object \<Longrightarrow> hostFree object \<Longrightarrow>
   \<exists>object'. baseMergeKeys object qs = Returns object' \<and> hostFree object'"
proof (induction object source and object qs rule: baseMerge_baseMergeKeys.induct)
  case (10 object key srcValue rest)
  let ?ov = "propOf (named object) key"
  let ?step = "(if isObject srcValue then
            (if ?ov = Undefined then
               andThen (baseMerge (emptyLike srcValue) srcValue) (\<lambda>newValue.
                 set_prop object key newValue)
             else if isObject ?ov then
               andThen (baseMerge ?ov srcValue) (\<lambda>merged. set_prop object key merged)
             else Returns object)
          else
            (if ?ov = Undefined then
               (if srcValue = Undefined then
                  andThen (has_prop key object) (\<lambda>found.
                    if found then Returns object else set_prop object key Undefined)
                else set_prop object key srcValue)
             else Returns object))"
  note c = "10.prems"(2) and hf = "10.prems"(3)
  from "10.prems"(1) have pk: "plainKey key"
    and wsv: "isObject srcValue \<Longrightarrow> wfSchema srcValue"
    and wrest: "wfSchemaKeys rest"
    by simp_all
  have sg: "safeGet object key = Returns ?ov"
    using c pk by (rule safeGet_plain)
  have hov: "hostFree ?ov"
    using hf by (simp add: hostFree_named hostFree_propOf)
  have setp: "\<And>x. hostFree x \<Longrightarrow>
      \<exists>o1. set_prop object key x = Returns o1 \<and> hostFree o1 \<and> container o1"
    using c pk hf
    by (simp add: set_prop_plain hostFree_with_named hostFreeProps_update hostFree_named)
  have "\<exists>o1. ?step = Returns o1 \<and> hostFree o1 \<and> container o1"
  proof (cases "isObject srcValue")
    case True
    show ?thesis
    proof (cases "?ov = Undefined")
      case u: True
      from "10.IH"(1) [OF sg True u wsv [OF True]] obtain nv
        where "baseMerge (emptyLike srcValue) srcValue = Returns nv" and "hostFree nv"
        by auto
      with setp [of nv] True u show ?thesis by auto
    next
      case nu: False
      show ?thesis
      proof (cases "isObject ?ov")
        case io: True
        from "10.IH"(2) [OF sg True nu io wsv [OF True] hostFree_isObject_container [OF hov io] hov]
        obtain m where "baseMerge ?ov srcValue = Returns m" and "hostFree m"
          by auto
        with setp [of m] True nu io show ?thesis by auto
      next
        case False
        with True nu c hf show ?thesis by simp
      qed
    qed
  next
    case False
    with setp [of srcValue] setp [of Undefined] c pk hf show ?thesis
      by (auto simp: has_prop_plain hostFree_scalar)
  qed
  then obtain o1 where step: "?step = Returns o1" and h1: "hostFree o1" and c1: "container o1"
    by blast
  from "10.IH"(3) [OF sg step wrest c1 h1] sg step show ?case
    by simp
qed (auto split: if_splits)

lemma hostFree_lookup [simp]:
  "hostFreeProps ps \<Longrightarrow> hostFree (case map_of ps k of None \<Rightarrow> Undefined | Some v \<Rightarrow> v)"
  by (auto dest: hostFreeProps_map_of split: option.splits)

lemma migratableI:
  "hostFreeProps ps \<Longrightarrow> map_of ps ''kubernetes'' = Some (Obj k) \<Longrightarrow>
   map_of k ''experimental'' = Some e \<Longrightarrow> e \<noteq> Undefined \<Longrightarrow> e \<noteq> Null \<Longrightarrow>
   map_of ps ''containerEngine'' = Some c \<Longrightarrow> container c \<Longrightarrow> migratable (Obj ps)"
  by (simp add: migratable_def propOf_def)

lemma plainObjectE:
  assumes "plainObject v" obtains ps where "v = Obj ps"
  using assms by (cases v) auto

lemma plainObject_propOf:
  assumes "plainObject (propOf ps k)" obtains c where "map_of ps k = Some (Obj c)"
proof -
  from assms obtain c where "propOf ps k = Obj c" by (rule plainObjectE)
  then have "map_of ps k = Some (Obj c)"
    by (auto simp: propOf_def split: option.splits)
  then show thesis by (rule that)
qed

lemma defined_propOf:
  assumes "propOf ps k \<noteq> Undefined" obtains v where "map_of ps k = Some v" and "propOf ps k = v"
  using assms by (auto simp: propOf_def split: option.splits)

lemma migratableE:
  assumes "migratable s"
  obtains ps k e c where "s = Obj ps" and "hostFreeProps ps"
    and "map_of ps ''kubernetes'' = Some (Obj k)"
    and "map_of k ''experimental'' = Some e" and "e \<noteq> Undefined" and "e \<noteq> Null"
    and "map_of ps ''containerEngine'' = Some c" and "container c"
proof -
  from assms obtain ps where s: "s = Obj ps"
    by (auto simp: migratable_def elim: plainObjectE)
  from assms s have h: "hostFreeProps ps" by (simp add: migratable_def)
  from assms s obtain k where k: "map_of ps ''kubernetes'' = Some (Obj k)"
    by (auto simp: migratable_def elim: plainObject_propOf)
  from assms s k have "propOf k ''experimental'' \<noteq> Undefined"
    by (simp add: migratable_def propOf_def [of ps])
  then obtain e where e: "map_of k ''experimental'' = Some e" and pe: "propOf k ''experimental'' = e"
    by (rule defined_propOf)
  from assms s k pe have ne: "e \<noteq> Undefined" "e \<noteq> Null"
    by (simp_all add: migratable_def propOf_def [of ps])
  from assms s have cc: "container (propOf ps ''containerEngine'')"
    by (simp add: migratable_def)
  then have "propOf ps ''containerEngine'' \<noteq> Undefined"
    by auto
  then obtain c where c: "map_of ps ''containerEngine'' = Some c"
    and pc: "propOf ps ''containerEngine'' = c"
    by (rule defined_propOf)
  from cc pc have "container c" by simp
  with s h k e ne c show thesis by (rule that)
qed

lemma updateTable_1_migratable:
  assumes "migratable s"
  shows "\<exists>s'. updateTable_1 s = Returns s' \<and> migratable s'"
proof -
  from assms obtain ps k e c where s: "s = Obj ps" and h: "hostFreeProps ps"
    and k: "map_of ps ''kubernetes'' = Some (Obj k)"
    and e: "map_of k ''experimental'' = Some e" and ne: "e \<noteq> Undefined" "e \<noteq> Null"
    and c: "map_of ps ''containerEngine'' = Some c" and cc: "container c"
    by (rule migratableE)
  have hk: "hostFreeProps k"
    using hostFreeProps_map_of [OF h k] by simp
  show ?thesis
  proof (cases "map_of k ''rancherMode''")
    case None
    then have "updateTable_1 s = Returns s"
      using k by (simp add: updateTable_1_def s objectPrototypeNames_def)
    with assms show ?thesis by simp
  next
    case (Some v)
    then have "updateTable_1 s
                 = Returns (Obj (AList.update ''kubernetes'' (Obj (AList.delete ''rancherMode'' k)) ps))"
      using k by (simp add: updateTable_1_def s in_child_def)
    moreover have "migratable (Obj (AList.update ''kubernetes'' (Obj (AList.delete ''rancherMode'' k)) ps))"
      using h hk e ne c cc
      by (intro migratableI [where k = "AList.delete ''rancherMode'' k" and e = e and c = c])
         (simp_all add: hostFreeProps_update hostFreeProps_delete update_conv')
    ultimately show ?thesis by simp
  qed
qed

lemma returnsWith_andThen:
  "returnsWith Q m \<Longrightarrow> (\<And>x. Q x \<Longrightarrow> returnsWith P (f x)) \<Longrightarrow> returnsWith P (andThen m f)"
  by (cases m) auto

lemma returnsWithE:
  assumes "returnsWith P m" obtains x where "m = Returns x" and "P x"
  using assms by (cases m) auto

lemma not_proto_lookup:
  "k \<notin> set objectPrototypeNames \<Longrightarrow> get_prop (Obj ps) k = Returns (propOf ps k)"
  by (simp add: propOf_def split: option.splits)

lemma migratable_get:
  "migratable s \<Longrightarrow> k \<notin> set objectPrototypeNames \<Longrightarrow> returnsWith hostFree (get_prop s k)"
  by (erule migratableE) (simp add: not_proto_lookup hostFree_propOf)

lemma migratable_get_kubernetes:
  assumes "migratable s" and "k \<notin> set objectPrototypeNames"
  shows "returnsWith hostFree (get_path s [''kubernetes'', k])"
  using assms(1)
proof (rule migratableE)
  fix ps kb e c
  assume s: "s = Obj ps" and h: "hostFreeProps ps"
    and kb: "map_of ps ''kubernetes'' = Some (Obj kb)"
  have "hostFreeProps kb"
    using hostFreeProps_map_of [OF h kb] by simp
  then show ?thesis
    using kb assms(2) by (simp add: s not_proto_lookup hostFree_propOf)
qed

text \<open>
  \<open>socketVMNet\<close> and \<open>name\<close> are no index and no member of a prototype, so reading the
  first from any value but \<open>undefined\<close> and \<open>null\<close> finds an own property or nothing.
\<close>

lemma plainKey_socketVMNet: "plainKey ''socketVMNet''"
  by code_simp

lemma plainKey_name: "plainKey ''name''"
  by code_simp

lemma socketVMNet_not_inherited:
  "''socketVMNet'' \<notin> set (stringPrototypeNames @ objectPrototypeNames)"
  "''socketVMNet'' \<notin> set (numberPrototypeNames @ objectPrototypeNames)"
  by code_simp+

lemma get_socketVMNet:
  assumes "hostFree e" and "e \<noteq> Undefined" and "e \<noteq> Null"
  shows "returnsWith hostFree (get_prop e ''socketVMNet'')"
proof (cases "container e")
  case True
  then show ?thesis
    using assms(1)
    by (simp add: get_prop_plain [OF _ plainKey_socketVMNet] hostFree_named hostFree_propOf)
next
  case False
  have "array_index ''socketVMNet'' = None" and "''socketVMNet'' \<noteq> ''length''"
    and "''socketVMNet'' \<notin> set objectPrototypeNames"
    using plainKey_socketVMNet by (simp_all add: plainKey_def)
  with False assms socketVMNet_not_inherited show ?thesis
    by (cases e) (simp_all del: set_append)
qed

lemma migratable_get_socketVMNet:
  assumes "migratable s"
  shows "returnsWith hostFree (get_path s [''kubernetes'', ''experimental'', ''socketVMNet''])"
  using assms
proof (rule migratableE)
  fix ps kb e c
  assume s: "s = Obj ps" and h: "hostFreeProps ps"
    and kb: "map_of ps ''kubernetes'' = Some (Obj kb)"
    and e: "map_of kb ''experimental'' = Some e" and ne: "e \<noteq> Undefined" "e \<noteq> Null"
  have "hostFreeProps kb"
    using hostFreeProps_map_of [OF h kb] by simp
  then have "hostFree e"
    using e by (rule hostFreeProps_map_of)
  then have "returnsWith hostFree (get_prop e ''socketVMNet'')"
    using ne by (rule get_socketVMNet)
  then show ?thesis
    using kb e by (simp add: s)
qed

lemma migratable_set:
  assumes "migratable s" and "hostFree x"
    and "k \<noteq> ''kubernetes''" and "k \<noteq> ''containerEngine''" and "k \<noteq> ''__proto__''"
  shows "returnsWith migratable (set_prop s k x)"
  using assms(1)
proof (rule migratableE)
  fix ps kb e c
  assume s: "s = Obj ps" and h: "hostFreeProps ps"
    and kb: "map_of ps ''kubernetes'' = Some (Obj kb)"
    and e: "map_of kb ''experimental'' = Some e" and ne: "e \<noteq> Undefined" "e \<noteq> Null"
    and c: "map_of ps ''containerEngine'' = Some c" and cc: "container c"
  have "migratable (Obj (AList.update k x ps))"
    using h kb e ne c cc assms(2-4)
    by (intro migratableI [where k = kb and e = e and c = c])
       (simp_all add: hostFreeProps_update update_conv')
  then show ?thesis using assms(5) by (simp add: s)
qed

lemma migratable_set_name:
  assumes "migratable s" and "hostFree x"
  shows "returnsWith migratable (in_child s ''containerEngine'' (\<lambda>c. set_prop c ''name'' x))"
  using assms(1)
proof (rule migratableE)
  fix ps kb e c
  assume s: "s = Obj ps" and h: "hostFreeProps ps"
    and kb: "map_of ps ''kubernetes'' = Some (Obj kb)"
    and e: "map_of kb ''experimental'' = Some e" and ne: "e \<noteq> Undefined" "e \<noteq> Null"
    and c: "map_of ps ''containerEngine'' = Some c" and cc: "container c"
  let ?c = "with_named c (AList.update ''name'' x (named c))"
  have hc: "hostFree c"
    using h c by (rule hostFreeProps_map_of)
  then have hc': "hostFree ?c"
    using assms(2) by (simp add: hostFree_with_named hostFreeProps_update hostFree_named)
  have st: "set_prop c ''name'' x = Returns ?c"
    using cc plainKey_name by (rule set_prop_plain)
  have "migratable (Obj (AList.update ''containerEngine'' ?c ps))"
    using h kb e ne hc' cc
    by (intro migratableI [where k = kb and e = e and c = ?c])
       (simp_all add: hostFreeProps_update update_conv')
  then show ?thesis
    using c st container_isObject [OF cc] by (simp add: s in_child_def)
qed

lemma migratable_keepsKubernetes: "migratable s \<Longrightarrow> keepsKubernetes s"
  by (simp add: migratable_def keepsKubernetes_def)

lemma keepsKubernetes_plainHostFree: "keepsKubernetes s \<Longrightarrow> plainHostFree s"
  by (simp add: keepsKubernetes_def plainHostFree_def)

lemma keepsKubernetes_delete:
  assumes "keepsKubernetes s"
  shows "returnsWith keepsKubernetes (in_child s ''kubernetes'' (\<lambda>child. delete_prop child k))"
proof -
  from assms obtain ps where s: "s = Obj ps"
    by (auto simp: keepsKubernetes_def elim: plainObjectE)
  from assms s have h: "hostFreeProps ps" by (simp add: keepsKubernetes_def)
  from assms s obtain kb where kb: "map_of ps ''kubernetes'' = Some (Obj kb)"
    by (auto simp: keepsKubernetes_def elim: plainObject_propOf)
  have "hostFreeProps kb"
    using hostFreeProps_map_of [OF h kb] by simp
  then show ?thesis
    using h kb
    by (simp add: s in_child_def keepsKubernetes_def hostFreeProps_update hostFreeProps_delete
        propOf_def update_conv')
qed

lemma keepsKubernetes_delete_each_in:
  "keepsKubernetes s \<Longrightarrow> returnsWith keepsKubernetes (delete_each_in s ''kubernetes'' ks)"
proof (induction ks arbitrary: s)
  case Nil
  then show ?case by simp
next
  case (Cons k ks)
  show ?case
    by (simp, rule returnsWith_andThen, rule keepsKubernetes_delete [OF Cons.prems])
       (rule Cons.IH)
qed

lemma plainHostFree_delete_each:
  "plainHostFree s \<Longrightarrow> returnsWith plainHostFree (delete_each s ks)"
proof (induction ks arbitrary: s)
  case Nil
  then show ?case by simp
next
  case (Cons k ks)
  from Cons.prems obtain ps where s: "s = Obj ps"
    by (auto simp: plainHostFree_def elim: plainObjectE)
  with Cons.prems have "plainHostFree (Obj (AList.delete k ps))"
    by (simp add: plainHostFree_def hostFreeProps_delete)
  from Cons.IH [OF this] show ?case by (simp add: s)
qed

lemma updateTable_4_migratable:
  assumes "migratable s"
  shows "returnsWith plainHostFree (updateTable_4 s)"
  unfolding updateTable_4_def
  using assms
  apply -
  apply (rule returnsWith_andThen, erule migratable_get_kubernetes, simp add: objectPrototypeNames_def)
  apply (rule returnsWith_andThen, erule migratable_get, simp add: objectPrototypeNames_def)
  apply (rule returnsWith_andThen, erule migratable_get, simp add: objectPrototypeNames_def)
  apply (rule returnsWith_andThen, erule migratable_get, simp add: objectPrototypeNames_def)
  apply (rule returnsWith_andThen, erule migratable_get, simp add: objectPrototypeNames_def)
  apply (rule returnsWith_andThen, erule migratable_set, simp, simp, simp, simp)
  apply (rule returnsWith_andThen, erule migratable_get_kubernetes, simp add: objectPrototypeNames_def)
  apply (rule returnsWith_andThen, erule migratable_get_kubernetes, simp add: objectPrototypeNames_def)
  apply (rule returnsWith_andThen, erule migratable_get_kubernetes, simp add: objectPrototypeNames_def)
  apply (rule returnsWith_andThen, erule migratable_set, simp, simp, simp, simp)
  apply (rule returnsWith_andThen, erule migratable_get_socketVMNet)
  apply (rule returnsWith_andThen, erule migratable_set, simp, simp, simp, simp)
  apply (rule returnsWith_andThen, erule migratable_get_kubernetes, simp add: objectPrototypeNames_def)
  apply (rule returnsWith_andThen, erule migratable_set, simp, simp, simp, simp)
  apply (rule returnsWith_andThen, erule migratable_get_kubernetes, simp add: objectPrototypeNames_def)
  apply (rule returnsWith_andThen, erule migratable_set_name, assumption)
  apply (rule returnsWith_andThen, rule keepsKubernetes_delete_each_in, erule migratable_keepsKubernetes)
  apply (rule plainHostFree_delete_each, erule keepsKubernetes_plainHostFree)
  done

lemma migratable_plainHostFree: "migratable s \<Longrightarrow> plainHostFree s"
  by (simp add: migratable_def plainHostFree_def)

lemma upgradeFrom_done: "\<not> v < CURRENT_SETTINGS_VERSION \<Longrightarrow> upgradeFrom v s = Returns s"
  by (subst upgradeFrom.simps) simp

lemma isSafeInteger_increment:
  assumes "isSafeInteger v" and "v < CURRENT_SETTINGS_VERSION"
  shows "isSafeInteger (v + 1)"
proof -
  from assms(1) have i: "v = of_int \<lfloor>v\<rfloor>" and b: "\<bar>v\<bar> \<le> 9007199254740991"
    by (simp_all add: isSafeInteger_def)
  have "\<lfloor>v + 1\<rfloor> = \<lfloor>v\<rfloor> + 1"
    by simp
  then have "v + 1 = of_int \<lfloor>v + 1\<rfloor>"
    using i by simp
  moreover have "\<bar>v + 1\<bar> \<le> 9007199254740991"
    using b assms(2) by (simp add: CURRENT_SETTINGS_VERSION_def abs_le_iff)
  ultimately show ?thesis
    by (simp only: isSafeInteger_def)
qed

lemma upgradeFrom_migratable:
  "migratable s \<Longrightarrow> isSafeInteger v \<Longrightarrow> returnsWith plainHostFree (upgradeFrom v s)"
proof (induction v s rule: upgradeFrom.induct)
  case (1 v s)
  note m = "1.prems"(1) and safe = "1.prems"(2)
  show ?case
  proof (cases "v < CURRENT_SETTINGS_VERSION")
    case False
    with m show ?thesis
      by (simp add: upgradeFrom_done migratable_plainHostFree)
  next
    case True
    have unfold: "upgradeFrom v s
          = andThen (case updateTable v of Some update \<Rightarrow> update s | None \<Rightarrow> Returns s)
              (\<lambda>settings'. upgradeFrom (v + 1) settings')"
      using True safe by (subst upgradeFrom.simps) simp
    show ?thesis
    proof (cases "v = 4")
      case v4: True
      have "returnsWith plainHostFree (updateTable_4 s)"
        using m by (rule updateTable_4_migratable)
      then obtain u where u: "updateTable_4 s = Returns u" and pu: "plainHostFree u"
        by (rule returnsWithE)
      have nxt: "upgradeFrom (v + 1) u = Returns u"
        using v4 by (simp add: upgradeFrom_done CURRENT_SETTINGS_VERSION_def)
      have "updateTable v = Some updateTable_4"
        using v4 by (simp add: updateTable_def)
      then have "upgradeFrom v s = Returns u"
        using u nxt by (simp add: unfold)
      with pu show ?thesis by simp
    next
      case False
      have "\<exists>u. (case updateTable v of Some update \<Rightarrow> update s | None \<Rightarrow> Returns s) = Returns u
                \<and> migratable u"
        using False m updateTable_1_migratable [of s]
        by (auto simp: updateTable_def)
      then obtain u
        where u: "(case updateTable v of Some update \<Rightarrow> update s | None \<Rightarrow> Returns s) = Returns u"
          and mu: "migratable u"
        by blast
      from "1.IH" [OF True safe u mu isSafeInteger_increment [OF safe True]] u show ?thesis
        by (simp add: unfold)
    qed
  qed
qed

lemma plainKey_version': "''version'' \<notin> set objectPrototypeNames"
  by (simp add: objectPrototypeNames_def)

section \<open>Properties of the deployment-profile code\<close>

subsection \<open>Profile precedence\<close>

text \<open>
  On Windows the registry loop assigns to the function's \<open>profiles\<close>: a machine hive
  that holds only \<open>Locked\<close> values wins, and the user hive's \<open>Defaults\<close> are not read.
\<close>

lemma readDeploymentProfiles_win32_system_locked_wins:
  "readDeploymentProfiles notSet
     \<lparr>platform = Win32,
      HKLM = Key [(([''Locked'', ''kubernetes''], ''enabled''), RegValue (Num 0))],
      HKCU = Key [(([''Defaults'', ''kubernetes''], ''port''), RegValue (Num 6444))],
      deploymentProfileSystem = \<lparr>defaultsFile = Missing, lockedFile = Missing\<rparr>,
      deploymentProfileUser = \<lparr>defaultsFile = Missing, lockedFile = Missing\<rparr>\<rparr>
   = Returns \<lparr>defaults = Obj [], locked = lockedExample\<rparr>"
  by (simp add: readDeploymentProfiles_def validateProfiles_def isDefined_def
      orEmptyObject_def lockedExample_def readRegistryKey_def defaultSettings_def
      getValue_def objectPrototypeNames_def strict_neq_def)

text \<open>
  Claim C1 (code defect).  The claim: on every platform, when the system root supplies
  only a locked artifact and the user root only a defaults artifact,
  \<open>readDeploymentProfiles\<close> returns the system root's locked object and an empty
  defaults object.  On Linux and on macOS the code returns an empty locked object
  instead: the loop binds what it read to a \<open>const profiles\<close> of its own, so the
  system root's locked profile never reaches the result.
\<close>

theorem readDeploymentProfiles_file_platforms_lose_locked:
  "readDeploymentProfiles notSet
     \<lparr>platform = Linux, HKLM = KeyAbsent, HKCU = KeyAbsent,
      deploymentProfileSystem = \<lparr>defaultsFile = Missing, lockedFile = Parsed lockedExample\<rparr>,
      deploymentProfileUser = \<lparr>defaultsFile = Parsed defaultsExample, lockedFile = Missing\<rparr>\<rparr>
   = Returns \<lparr>defaults = Obj [], locked = Obj []\<rparr>
   \<and> readDeploymentProfiles notSet
     \<lparr>platform = Darwin, HKLM = KeyAbsent, HKCU = KeyAbsent,
      deploymentProfileSystem = \<lparr>defaultsFile = Missing, lockedFile = Parsed lockedExample\<rparr>,
      deploymentProfileUser = \<lparr>defaultsFile = Parsed defaultsExample, lockedFile = Missing\<rparr>\<rparr>
   = Returns \<lparr>defaults = Obj [], locked = Obj []\<rparr>
   \<and> lockedExample \<noteq> Obj []"
  by (simp add: readDeploymentProfiles_def validateProfiles_def isDefined_def
      orEmptyObject_def lockedExample_def)

subsection \<open>A locked profile that cannot be parsed\<close>

text \<open>
  On Linux and macOS a locked file that exists and cannot be read or parsed, in a root
  that is consulted, ends \<open>readDeploymentProfiles\<close> with the error that
  \<open>readProfileFiles\<close> throws; a missing locked file does not.
\<close>

lemma readDeploymentProfiles_linux_malformed_locked_throws:
  "readDeploymentProfiles notSet
     \<lparr>platform = Linux, HKLM = KeyAbsent, HKCU = KeyAbsent,
      deploymentProfileSystem = \<lparr>defaultsFile = d, lockedFile = Malformed\<rparr>,
      deploymentProfileUser = u\<rparr>
   = Throws ErrorParsingLocked"
  by (simp add: readDeploymentProfiles_def)

lemma readDeploymentProfiles_linux_missing_locked_returns:
  "readDeploymentProfiles notSet
     \<lparr>platform = Linux, HKLM = KeyAbsent, HKCU = KeyAbsent,
      deploymentProfileSystem = \<lparr>defaultsFile = Missing, lockedFile = Missing\<rparr>,
      deploymentProfileUser = \<lparr>defaultsFile = Missing, lockedFile = Missing\<rparr>\<rparr>
   = Returns \<lparr>defaults = Obj [], locked = Obj []\<rparr>"
  by (simp add: readDeploymentProfiles_def validateProfiles_def isDefined_def
      orEmptyObject_def)

text \<open>
  Claim C2 (code defect).  The claim: on every platform a locked artifact that exists but
  cannot be parsed makes \<open>readDeploymentProfiles\<close> raise.  On Windows the reads of the
  registry stand inside a \<open>try\<close> whose \<open>catch\<close> only logs: when reading a value under
  \<open>Locked\<close> throws, the function returns two empty profiles and raises nothing.
\<close>

theorem readDeploymentProfiles_win32_swallows_locked_error:
  "readDeploymentProfiles notSet
     \<lparr>platform = Win32,
      HKLM = Key [(([''Locked'', ''kubernetes''], ''enabled''), RegFails)],
      HKCU = KeyAbsent,
      deploymentProfileSystem = \<lparr>defaultsFile = Missing, lockedFile = Missing\<rparr>,
      deploymentProfileUser = \<lparr>defaultsFile = Missing, lockedFile = Missing\<rparr>\<rparr>
   = Returns \<lparr>defaults = Obj [], locked = Obj []\<rparr>"
  by (simp add: readDeploymentProfiles_def validateProfiles_def isDefined_def
      orEmptyObject_def readRegistryKey_def defaultSettings_def getValue_def)

subsection \<open>Schema validation\<close>

text \<open>
  Claim C5 (code defect).  The claim: when a profile value and the schema value are both
  of type \<open>object\<close> and exactly one of them is an array, the key is deleted.  The test
  that guards the deletion applies \<open>Array.isArray\<close> to a boolean and is never true.  An
  array where the schema has a plain object is kept as it is; a plain object where the
  schema has an array is kept and validated against the array.
\<close>

theorem validateDeploymentProfile_keeps_array_mismatch:
  "validateDeploymentProfile (Obj [(''kubernetes'', Arr [Num 1] [])]) (defaultSettings notSet)
   = Returns (Obj [(''kubernetes'', Arr [Num 1] [])])
   \<and> validateDeploymentProfile
       (Obj [(''containerEngine'',
              Obj [(''imageAllowList'', Obj [(''patterns'', Obj [(''x'', Num 1)])])])])
       (defaultSettings notSet)
   = Returns (Obj [(''containerEngine'',
                    Obj [(''imageAllowList'', Obj [(''patterns'', Obj [])])])])"
  by (simp add: defaultSettings_def objectPrototypeNames_def arrayPrototypeNames_def
      strict_neq_def array_index_def is_digit_def digit_of_def)

text \<open>
  Claim C6 (code defect).  The claim: \<open>validateDeploymentProfile\<close> never raises and its
  result holds no key whose value's type differs from the schema's.  A \<open>null\<close> where the
  schema has an object passes the \<open>typeof\<close> comparison (both are \<open>object\<close>) and is
  handed to the recursive call, where \<open>Object.keys(null)\<close> throws a \<open>TypeError\<close>.
\<close>

theorem validateDeploymentProfile_raises_on_null:
  "validateDeploymentProfile (Obj [(''application'', Null)]) (defaultSettings notSet)
   = Throws TypeError"
  by (simp add: defaultSettings_def objectPrototypeNames_def strict_neq_def)

section \<open>Properties of the command-line overrides\<close>

subsection \<open>getUpdatableNode\<close>

text \<open>
  Once the walk has put \<open>{}\<close> in place of a falsy value it stays on \<open>{}\<close>, as long as
  no later component names a member of \<open>Object.prototype\<close>; and then the function
  returns \<open>null\<close>.
\<close>

lemma walk_detached:
  "list_all (\<lambda>f. f \<notin> set objectPrototypeNames) optionParts \<Longrightarrow>
   walk optionParts (Obj []) None = Returns (Obj [], None)"
  by (induction optionParts) auto

lemma getUpdatableNode_missing_is_null:
  assumes "split_dot fqFieldAccessor = first # optionParts @ [finalOptionPart]"
    and "get_prop cfg first = Returns v" and "\<not> truthy v"
    and "list_all (\<lambda>f. f \<notin> set objectPrototypeNames) (optionParts @ [finalOptionPart])"
  shows "getUpdatableNode cfg fqFieldAccessor = Returns None"
  using assms by (simp add: getUpdatableNode_def butlast_append walk_detached)

text \<open>
  Claim C10 (code defect).  The claim: when the intermediate components of the accessor
  are absent from \<open>cfg\<close>, \<open>getUpdatableNode\<close> returns \<open>null\<close>; the function's own
  comment says that the result is \<open>null\<close> when the accessor does not point to a node of
  the settings.  The last test is \<open>finalOptionPart in currentConfig\<close>, and \<open>in\<close> also
  finds what an object inherits: for \<open>nosuch.toString\<close>, where \<open>nosuch\<close> is no property
  of the settings, the function returns the temporary \<open>{}\<close> paired with \<open>toString\<close>.
\<close>

theorem getUpdatableNode_inherited_name_not_null:
  "get_prop (defaultSettings notSet) ''nosuch'' = Returns Undefined
   \<and> getUpdatableNode (defaultSettings notSet) ''nosuch.toString''
       = Returns (Some \<lparr>subtree = Obj [], place = None, finalFieldName = ''toString''\<rparr>)"
  by (simp add: getUpdatableNode_def defaultSettings_def objectPrototypeNames_def)

subsection \<open>When the settings are saved\<close>

lemma overwrite_store:
  "overwrite arg rest fq val hasEqual cfg st lhsInfo ty = Continue takesNext external cfg' st'
   \<Longrightarrow> st' = st \<and> external = False"
  by (auto simp: overwrite_def Let_def split: if_splits outcome.splits)

lemma processArg_store:
  "processArg arg rest external cfg st = Continue takesNext external' cfg' st' \<Longrightarrow>
     saved st' = saved st \<and> isFirstRun st' = isFirstRun st
     \<and> moduleSettings st' = moduleSettings st"
  by (auto simp: processArg_def split: if_splits prod.splits outcome.splits option.splits
      dest: overwrite_store)

lemma processArgs_store:
  "processArgs args external cfg st = (r, cfg', st') \<Longrightarrow>
     saved st' = saved st \<and> isFirstRun st' = isFirstRun st
     \<and> moduleSettings st' = moduleSettings st"
proof (induction args external cfg st rule: processArgs.induct)
  case (1 external cfg st)
  then show ?case by simp
next
  case (2 arg rest external cfg st)
  show ?case
  proof (cases "processArg arg rest external cfg st")
    case (Continue takesNext external' c s)
    with 2 show ?thesis by (auto dest: processArg_store)
  next
    case (Raise err)
    with 2 show ?thesis by simp
  next
    case OutOfModel
    with 2 show ?thesis by simp
  qed
qed

text \<open>
  Claim C4, as the code has it.  \<open>updateFromCommandLine\<close> calls \<open>save\<close> and clears the
  first-run flag exactly when it returns and the argument list is not empty (the test
  is \<open>lim > 0\<close>); when the list is empty or the call throws, nothing is saved and the
  flag is as it was.
\<close>

theorem updateFromCommandLine_saves_iff_nonempty:
  assumes "updateFromCommandLine cfg commandLineArgs st = (r, cfg', st')"
    and "r \<noteq> Unmodelled"
  shows "if (\<exists>v. r = Returns v) \<and> commandLineArgs \<noteq> []
         then saved st' = saved st @ [cfg'] \<and> \<not> isFirstRun st'
         else saved st' = saved st \<and> isFirstRun st' = isFirstRun st"
  using assms
  by (auto simp: updateFromCommandLine_def save_def
      split: prod.splits outcome.splits if_splits dest: processArgs_store)

theorem updateFromCommandLine_saves_iff_nonempty_witness:
  "fst (updateFromCommandLine (defaultSettings ''notset'') [''--no-modal-dialogs'']
          (initialStore\<lparr>isFirstRun := True\<rparr>)) \<noteq> Unmodelled
   \<and> saved (snd (snd (updateFromCommandLine (defaultSettings ''notset'')
               [''--no-modal-dialogs''] (initialStore\<lparr>isFirstRun := True\<rparr>))))
       = [defaultSettings ''notset'']
   \<and> \<not> isFirstRun (snd (snd (updateFromCommandLine (defaultSettings ''notset'')
               [''--no-modal-dialogs''] (initialStore\<lparr>isFirstRun := True\<rparr>))))"
proof -
  let ?call = "updateFromCommandLine (defaultSettings ''notset'') [''--no-modal-dialogs'']
                 (initialStore\<lparr>isFirstRun := True\<rparr>)"
  have split: "splitArg ''--no-modal-dialogs'' = (''no-modal-dialogs'', [], False)"
    by code_simp
  have r: "?call = (Returns (defaultSettings ''notset''), defaultSettings ''notset'',
                    snd (snd ?call))"
    by (simp add: updateFromCommandLine_def processArg_def split)
  have "fst ?call \<noteq> Unmodelled"
    by (subst r) simp
  with updateFromCommandLine_saves_iff_nonempty [OF r] show ?thesis
    by (simp add: initialStore_def)
qed

text \<open>
  The claim as the specification has it: the settings are saved if and only if at
  least one token was consumed.  With the single argument \<open>foo\<close>, which the loop skips
  as an external argument, no token is consumed, and yet the settings are saved and the
  first-run flag is cleared.
\<close>

theorem updateFromCommandLine_saves_without_consuming:
  "\<not> tokenConsumed (defaultSettings ''notset'') [''foo''] (initialStore\<lparr>isFirstRun := True\<rparr>)
   \<and> updateFromCommandLine (defaultSettings ''notset'') [''foo'']
        (initialStore\<lparr>isFirstRun := True\<rparr>)
       = (Returns (defaultSettings ''notset''), defaultSettings ''notset'',
          initialStore\<lparr>isFirstRun := False, saved := [defaultSettings ''notset'']\<rparr>)"
  by (simp add: tokenConsumed_def updateFromCommandLine_def processArg_def save_def
      initialStore_def)

subsection \<open>Type safety of the overrides\<close>

lemma split_dot_memoryInGB:
  "split_dot ''virtualMachine.memoryInGB'' = [''virtualMachine'', ''memoryInGB'']"
  by code_simp

lemma split_dot_name_foo:
  "split_dot ''containerEngine.name.foo'' = [''containerEngine'', ''name'', ''foo'']"
  by code_simp

lemma splitArg_memoryInGB_abc:
  "splitArg ''--virtualMachine.memoryInGB=abc'' = (''virtualMachine.memoryInGB'', ''abc'', True)"
  by code_simp

lemma splitArg_memoryInGB_8:
  "splitArg ''--virtualMachine.memoryInGB=8'' = (''virtualMachine.memoryInGB'', ''8'', True)"
  by code_simp

lemma splitArg_name_foo:
  "splitArg ''--containerEngine.name.foo=x'' = (''containerEngine.name.foo'', ''x'', True)"
  by code_simp

lemma JSON_parse_abc: "JSON_parse ''abc'' = Throws SyntaxError"
  by code_simp

lemma JSON_parse_8: "JSON_parse ''8'' = Returns (Num 8)"
  by code_simp

text \<open>
  Claim C8, as the code has it.  On a settings object whose \<open>virtualMachine.memoryInGB\<close>
  is a number, \<open>--virtualMachine.memoryInGB=abc\<close> throws the error "Can't evaluate ...
  as number" and leaves the settings and the store alone, and
  \<open>--virtualMachine.memoryInGB=8\<close> sets the field to the number 8, saves and returns.
  When \<open>containerEngine.name\<close> is a string that is not empty,
  \<open>--containerEngine.name.foo=x\<close> throws (the \<open>TypeError\<close> of \<open>in\<close> applied to a
  string).
\<close>

theorem commandLine_type_safety:
  assumes "cfg = Obj ps"
    and "map_of ps ''virtualMachine'' = Some (Obj vm)"
    and "map_of vm ''memoryInGB'' = Some (Num n)"
    and "map_of ps ''containerEngine'' = Some (Obj ce)"
    and "map_of ce ''name'' = Some (Str s)"
    and "s \<noteq> []"
  shows "updateFromCommandLine cfg [''--virtualMachine.memoryInGB=abc''] st
           = (Throws (CantEvaluate ''virtualMachine.memoryInGB'' ''abc'' ''number''), cfg, st)
       \<and> updateFromCommandLine cfg [''--virtualMachine.memoryInGB=8''] st
           = (let cfg' = Obj (AList.update ''virtualMachine''
                               (Obj (AList.update ''memoryInGB'' (Num 8) vm)) ps)
              in (Returns cfg', cfg', (save cfg' st)\<lparr>isFirstRun := False\<rparr>))
       \<and> updateFromCommandLine cfg [''--containerEngine.name.foo=x''] st
           = (Throws TypeError, cfg, st)"
  using assms
  by (simp add: updateFromCommandLine_def processArg_def overwrite_def getUpdatableNode_def
      assignValue_def step_place_def Let_def split_dot_memoryInGB split_dot_name_foo
      splitArg_memoryInGB_abc splitArg_memoryInGB_8 splitArg_name_foo JSON_parse_abc
      JSON_parse_8)

theorem commandLine_type_safety_witness:
  "updateFromCommandLine (defaultSettings ''notset'') [''--virtualMachine.memoryInGB=abc'']
     initialStore
     = (Throws (CantEvaluate ''virtualMachine.memoryInGB'' ''abc'' ''number''),
        defaultSettings ''notset'', initialStore)
   \<and> get_path (fst (snd (updateFromCommandLine (defaultSettings ''notset'')
                           [''--virtualMachine.memoryInGB=8''] initialStore)))
         [''virtualMachine'', ''memoryInGB''] = Returns (Num 8)
   \<and> fst (updateFromCommandLine (defaultSettings ''notset'') [''--containerEngine.name.foo=x'']
            initialStore) = Throws TypeError"
proof -
  obtain ps where cfg: "defaultSettings ''notset'' = Obj ps"
    and vm: "map_of ps ''virtualMachine''
               = Some (Obj [(''memoryInGB'', Num 2), (''numberCPUs'', Num 2),
                            (''hostResolver'', Bool True)])"
    and ce: "map_of ps ''containerEngine''
               = Some (Obj [(''imageAllowList'',
                              Obj [(''enabled'', Bool False), (''locked'', Bool False),
                                   (''patterns'', Arr [] [])]),
                            (''name'', Str ''containerd'')])"
    by (simp add: defaultSettings_def ContainerEngine_CONTAINERD_def)
  have "map_of [(''memoryInGB'', Num 2), (''numberCPUs'', Num 2), (''hostResolver'', Bool True)]
          ''memoryInGB'' = Some (Num 2)"
    by simp
  moreover have "map_of [(''imageAllowList'',
                              Obj [(''enabled'', Bool False), (''locked'', Bool False),
                                   (''patterns'', Arr [] [])]),
                            (''name'', Str ''containerd'')] ''name'' = Some (Str ''containerd'')"
    by simp
  moreover have "''containerd'' \<noteq> []"
    by simp
  ultimately show ?thesis
    using commandLine_type_safety [OF cfg vm _ ce, of 2 "''containerd''" initialStore] vm
    by (simp add: Let_def update_conv')
qed

text \<open>
  The claim as the specification has it holds on every loaded settings object.  A
  settings file that names the engine \<open>ContainerEngine.NONE\<close> (the empty string) loads
  with that name; on the loaded object the walk replaces the empty name by \<open>{}\<close>,
  \<open>foo\<close> is not found in it, and \<open>--containerEngine.name.foo=x\<close>, being the first
  argument, is skipped: the call returns the settings and raises nothing.
\<close>

theorem commandLine_engine_none_no_error:
  "(case load ''notset'' (exampleEnv (Parsed engineNoneFile)) initialStore of
      (Returns cfg, st) \<Rightarrow>
        get_path cfg [''containerEngine'', ''name''] = Returns (Str ContainerEngine_NONE)
        \<and> fst (updateFromCommandLine cfg [''--containerEngine.name.foo=x''] st) = Returns cfg
    | _ \<Rightarrow> False)"
  by code_simp

section \<open>Properties of load\<close>

lemma loadFromDisk_parsed_isFirstRun:
  "settingsFile env = Parsed v \<Longrightarrow> loadFromDisk notSet env st = (r, st') \<Longrightarrow>
   isFirstRun st' = isFirstRun st"
  by (auto simp: loadFromDisk_def save_def split: outcome.splits if_splits prod.splits)

lemma load_isFirstRun:
  assumes "moduleSettings st = None"
  shows "isFirstRun (snd (load notSet env st)) = (settingsFile env = Missing \<or> isFirstRun st)"
proof (cases "settingsFile env")
  case Missing
  with assms show ?thesis
    by (simp add: load_def loadFromDisk_def save_def Let_def split: outcome.splits)
next
  case Unreadable
  with assms show ?thesis
    by (simp add: load_def loadFromDisk_def save_def Let_def split: outcome.splits)
next
  case Malformed
  with assms show ?thesis
    by (simp add: load_def loadFromDisk_def save_def)
next
  case (Parsed v)
  obtain r st' where l: "loadFromDisk notSet env st = (r, st')"
    by (cases "loadFromDisk notSet env st")
  have st': "isFirstRun st' = isFirstRun st"
    using loadFromDisk_parsed_isFirstRun [OF Parsed l] .
  show ?thesis
  proof (cases r)
    case (Returns cfg)
    with assms l Parsed st' show ?thesis by (simp add: load_def)
  next
    case (Throws err)
    with loadFromDisk_parsed_throws [OF Parsed] l have "err \<noteq> FsError ''ENOENT''"
      by auto
    with assms l Parsed st' Throws show ?thesis
      by (simp add: load_def save_def Let_def split: outcome.splits)
  next
    case Unmodelled
    with assms l Parsed st' show ?thesis by (simp add: load_def)
  qed
qed

text \<open>
  Claim C9.  When the settings file exists and does not decode, the first \<open>load\<close> saves
  the compiled-in defaults and returns them, with \<open>version\<close> equal to
  \<open>CURRENT_SETTINGS_VERSION\<close>, and raises nothing; and after the first \<open>load\<close>,
  whatever it found, \<open>firstRunDialogNeeded()\<close> is true exactly when the settings file
  was missing.
\<close>

theorem load_undecodable_file_gives_defaults:
  "load notSet (env\<lparr>settingsFile := Malformed\<rparr>) initialStore
     = (Returns (defaultSettings notSet),
        initialStore\<lparr>saved := [defaultSettings notSet],
                      moduleSettings := Some (defaultSettings notSet)\<rparr>)
   \<and> get_prop (defaultSettings notSet) ''version'' = Returns (Num CURRENT_SETTINGS_VERSION)
   \<and> CURRENT_SETTINGS_VERSION = 5
   \<and> firstRunDialogNeeded (snd (load notSet env initialStore)) = (settingsFile env = Missing)"
proof -
  have "firstRunDialogNeeded (snd (load notSet env initialStore)) = (settingsFile env = Missing)"
    using load_isFirstRun [of initialStore notSet env]
    by (simp add: initialStore_def firstRunDialogNeeded_def)
  moreover have "get_prop (defaultSettings notSet) ''version''
                   = Returns (Num CURRENT_SETTINGS_VERSION)"
    by (simp add: defaultSettings_def)
  moreover have "load notSet (env\<lparr>settingsFile := Malformed\<rparr>) initialStore
     = (Returns (defaultSettings notSet),
        initialStore\<lparr>saved := [defaultSettings notSet],
                      moduleSettings := Some (defaultSettings notSet)\<rparr>)"
    by (simp add: load_def loadFromDisk_def save_def initialStore_def)
  ultimately show ?thesis
    by (simp add: CURRENT_SETTINGS_VERSION_def)
qed

section \<open>Properties of the migration\<close>

text \<open>
  Claim C3.  Migration is idempotent: migrating what a migration returned returns it
  unchanged, and a migration that throws throws again.  (\<open>updateSettings\<close> is the
  whole routine: the version steps followed by the merge over the compiled-in
  defaults.)
\<close>

theorem updateSettings_idempotent:
  "andThen (updateSettings notSet r) (updateSettings notSet) = updateSettings notSet r"
proof (cases "updateSettings notSet r")
  case (Returns s)
  with updateSettings_result [OF Returns] updateSettings_fixpoint [of s notSet]
  show ?thesis by simp
qed simp_all

text \<open>
  Claim C7, as the code has it.  The version steps read \<open>settings.kubernetes\<close> and
  \<open>settings.kubernetes.experimental\<close> and assign to \<open>settings.containerEngine.name\<close>
  without testing that these exist, and the loop counts in doubles.  For every raw
  settings object (decoded data, so without host objects) whose stored version is a safe
  integer below \<open>CURRENT_SETTINGS_VERSION\<close>, and in which \<open>kubernetes\<close> is a plain object,
  \<open>kubernetes.experimental\<close> is neither \<open>undefined\<close> nor \<open>null\<close> and \<open>containerEngine\<close> is
  an object or an array, the migration returns, and what it returns has \<open>version\<close> equal
  to \<open>CURRENT_SETTINGS_VERSION\<close>.
\<close>

theorem updateSettings_reaches_current_version:
  assumes "hostFreeProps ps"
    and "map_of ps ''version'' = Some (Num v)"
    and "isSafeInteger v" and "v < CURRENT_SETTINGS_VERSION"
    and "map_of ps ''kubernetes'' = Some (Obj k)"
    and "map_of k ''experimental'' = Some e" and "e \<noteq> Undefined" and "e \<noteq> Null"
    and "map_of ps ''containerEngine'' = Some c" and "container c"
  shows "\<exists>s. updateSettings notSet (Obj ps) = Returns s
             \<and> get_prop s ''version'' = Returns (Num CURRENT_SETTINGS_VERSION)"
proof -
  have m: "migratable (Obj ps)"
    using assms(1,5-10) by (rule migratableI)
  have ne: "length ps \<noteq> 0"
    using assms(2) by auto
  have loaded: "(if truthy (Num v) then Num v else Num 0) = Num v"
    by simp
  obtain u where u: "upgradeFrom v (Obj ps) = Returns u" and pu: "plainHostFree u"
    using upgradeFrom_migratable [OF m assms(3)] by (rule returnsWithE)
  from pu obtain us where us: "u = Obj us" and hus: "hostFreeProps us"
    by (auto simp: plainHostFree_def elim: plainObjectE)
  let ?cur = "Obj (AList.update ''version'' (Num CURRENT_SETTINGS_VERSION) us)"
  have st: "set_prop u ''version'' (Num CURRENT_SETTINGS_VERSION) = Returns ?cur"
    by (simp add: us)
  have hc: "hostFree ?cur"
    using hus by (simp add: hostFreeProps_update)
  obtain s where s: "baseMerge ?cur (defaultSettings notSet) = Returns s"
    using merge_returns(1) [OF wfSchema_defaultSettings _ hc, of notSet] by auto
  obtain qs where qs: "defaultSettings notSet = Obj qs"
    by (simp add: defaultSettings_def)
  have wq: "wfSchemaKeys qs"
    using wfSchema_defaultSettings [of notSet] by (simp add: qs)
  have mk: "baseMergeKeys ?cur qs = Returns s"
    using s by (simp add: qs)
  have cs: "container s"
    using baseMergeKeys_frame [OF _ wq mk] by simp
  have vs: "map_of (named s) ''version'' = Some (Num CURRENT_SETTINGS_VERSION)"
    using baseMergeKeys_keeps [OF _ wq mk, of "''version''" "Num CURRENT_SETTINGS_VERSION"]
    by (simp add: update_conv')
  have g: "get_prop s ''version'' = Returns (Num CURRENT_SETTINGS_VERSION)"
    using get_prop_plain [OF cs plainKey_version] vs by (simp add: propOf_def)
  have "updateSettings notSet (Obj ps) = Returns s"
    using ne assms(2,4) u st s
    by (simp add: updateSettings_def not_proto_lookup plainKey_version' propOf_def loaded
        defaultsDeep_def del: truthy.simps)
  with g show ?thesis by blast
qed

theorem updateSettings_reaches_current_version_witness:
  "isSafeInteger 4 \<and> (4 :: rat) < CURRENT_SETTINGS_VERSION
   \<and> (\<exists>s. updateSettings ''notset'' version4Example = Returns s
            \<and> get_prop s ''version'' = Returns (Num CURRENT_SETTINGS_VERSION))"
proof -
  have v: "isSafeInteger 4" "(4 :: rat) < CURRENT_SETTINGS_VERSION"
    by (simp_all add: isSafeInteger_def CURRENT_SETTINGS_VERSION_def)
  show ?thesis
    using v updateSettings_reaches_current_version
      [of "[(''version'', Num 4),
            (''kubernetes'',
               Obj [(''containerEngine'', Str ''moby''),
                    (''suppressSudo'', Bool True),
                    (''experimental'', Obj [(''socketVMNet'', Bool False)])]),
            (''containerEngine'', Obj [(''imageAllowList'', Obj [(''enabled'', Bool False)])])]"
          4
          "[(''containerEngine'', Str ''moby''), (''suppressSudo'', Bool True),
            (''experimental'', Obj [(''socketVMNet'', Bool False)])]"
          "Obj [(''socketVMNet'', Bool False)]"
          "Obj [(''imageAllowList'', Obj [(''enabled'', Bool False)])]"
          "''notset''"]
    by (simp add: version4Example_def)
qed

text \<open>
  The claim as the specification has it, for every non-empty object stored at a version
  below 5 whatever its other fields: the object \<open>{"version": 4}\<close> has no
  \<open>kubernetes\<close>, and the step for version 4 throws a \<open>TypeError\<close> when it reads
  \<open>settings.kubernetes.suppressSudo\<close>.
\<close>

theorem updateSettings_throws_without_kubernetes:
  "updateSettings ''notset'' (Obj [(''version'', Num 4)]) = Throws TypeError"
  by code_simp

text \<open>
  The other hypotheses are needed as well: a \<open>null\<close> under \<open>kubernetes.experimental\<close>
  and a string under \<open>containerEngine\<close> make the step for version 4 throw, and a version
  that is no safe integer is outside what the model of the loop follows.
\<close>

lemma updateSettings_throws_on_null_experimental:
  "updateSettings ''notset''
     (Obj [(''version'', Num 4), (''kubernetes'', Obj [(''experimental'', Null)]),
           (''containerEngine'', Obj [])]) = Throws TypeError"
  by code_simp

lemma updateSettings_throws_on_string_containerEngine:
  "updateSettings ''notset''
     (Obj [(''version'', Num 4), (''kubernetes'', Obj [(''experimental'', Obj [])]),
           (''containerEngine'', Str ''moby'')]) = Throws TypeError"
  by code_simp

lemma updateSettings_unsafe_version_not_followed:
  "updateSettings ''notset''
     (Obj [(''version'', Num (- 100000000000000000)),
           (''kubernetes'', Obj [(''experimental'', Obj [])]),
           (''containerEngine'', Obj [])]) = Unmodelled"
  by code_simp

text \<open>
  The scenario of the specification: the engine and the inverse of \<open>suppressSudo\<close>
  move to their new places and leave \<open>kubernetes\<close>.
\<close>

lemma updateSettings_version4_scenario:
  "(case updateSettings ''notset'' version4Example of
      Returns s \<Rightarrow>
        get_path s [''containerEngine'', ''name''] = Returns (Str ''moby'')
        \<and> get_path s [''application'', ''adminAccess''] = Returns (Bool False)
        \<and> get_path s [''kubernetes'', ''containerEngine''] = Returns Undefined
        \<and> get_path s [''kubernetes'', ''suppressSudo''] = Returns Undefined
    | _ \<Rightarrow> False)"
  by code_simp

end
